theory Spec2Isabelle
  imports Main
begin

section \<open>core/models.py\<close>

text \<open>
  The pydantic models. A field declared \<open>Optional[...]\<close> is an option; the record
  fields carry a prefix because the three models share their field names.
  \<open>pu_fields_set\<close> is pydantic's \<open>__fields_set__\<close>: the names of the fields the
  caller passed to the constructor, which \<open>dict(exclude_unset=True)\<close> reads.
\<close>

record User =
  username :: string
  password :: string
  class_key :: string

record PromptCreate =
  pc_content :: string
  pc_display_name :: string
  pc_author :: "string option"
  pc_tags :: "string list option"

record PromptUpdate =
  pu_content :: "string option"
  pu_display_name :: "string option"
  pu_tags :: "string list option"
  pu_fields_set :: "string list"

record Prompt =
  p_content :: "string option"
  p_display_name :: "string option"
  p_tags :: "string list option"
  p_id :: nat
  p_guid :: string

text \<open>
  \<open>PromptUpdate(**kwargs)\<close>: an argument is \<open>None\<close> when the keyword is not passed
  and \<open>Some v\<close> when it is passed with the value \<open>v\<close> (which may itself be Python's
  \<open>None\<close>). A field that is not passed takes the default of the class body:
  \<open>content = None\<close>, \<open>display_name = None\<close>, \<open>tags = []\<close>.
\<close>

definition PromptUpdate_init ::
  "string option option \<Rightarrow> string option option \<Rightarrow> string list option option \<Rightarrow> PromptUpdate" where
  "PromptUpdate_init c d t =
     \<lparr>pu_content = (case c of None \<Rightarrow> None | Some v \<Rightarrow> v),
      pu_display_name = (case d of None \<Rightarrow> None | Some v \<Rightarrow> v),
      pu_tags = (case t of None \<Rightarrow> Some [] | Some v \<Rightarrow> v),
      pu_fields_set =
        (case c of None \<Rightarrow> [] | Some _ \<Rightarrow> [''content'']) @
        (case d of None \<Rightarrow> [] | Some _ \<Rightarrow> [''display_name'']) @
        (case t of None \<Rightarrow> [] | Some _ \<Rightarrow> [''tags''])\<rparr>"

text \<open>\<open>prompt.dict(exclude_unset=True)\<close>: the keys, in the order of the class body.\<close>

definition dict_exclude_unset :: "PromptUpdate \<Rightarrow> string list" where
  "dict_exclude_unset p =
     filter (\<lambda>f. f \<in> set (pu_fields_set p)) [''content'', ''display_name'', ''tags'']"

text \<open>\<open>PromptUpdate(**prompt.dict())\<close>: every field is passed, with the value it has.\<close>

definition PromptUpdate_revalidate :: "PromptUpdate \<Rightarrow> PromptUpdate" where
  "PromptUpdate_revalidate p =
     PromptUpdate_init (Some (pu_content p)) (Some (pu_display_name p)) (Some (pu_tags p))"

section \<open>The relational store\<close>

text \<open>
  Modelled from the spec: the schema of the three tables (\<open>prompts\<close>, \<open>tags\<close> with
  unique tag strings, \<open>prompt_tags\<close>) is not part of the sources. The tables are lists
  of rows in storage order; \<open>id\<close> columns are assigned from a counter. What the sources
  do not fix is a parameter of every statement: whether \<open>prompt_tags\<close> has its
  uniqueness constraint on the pair (prompt, tag), and what a foreign key from
  \<open>prompt_tags\<close> to \<open>prompts\<close>, if there is one, does when a prompt row is deleted.
  The spec prescribes the uniqueness constraint and no foreign key. The timestamp
  columns are assigned by the storage engine and no statement of the repository writes
  them; they are left out of the row. String comparison in a WHERE clause is equality.
  \<open>group_concat_max_len\<close> is the server's system variable of that name, in bytes (1024
  unless the server is configured otherwise): the server cuts the result of
  \<open>GROUP_CONCAT\<close> at that length. No statement of the repository sets it.
\<close>

record prompt_row =
  row_id :: nat
  row_guid :: string
  row_content :: string
  row_display_name :: string
  row_author :: "string option"

datatype fk_action = NoForeignKey | Restrict | Cascade

record schema =
  link_unique :: bool
  on_delete :: fk_action

record database =
  prompts :: "prompt_row list"
  tags :: "(nat \<times> string) list"
  prompt_tags :: "(nat \<times> nat) list"
  next_prompt_id :: nat
  next_tag_id :: nat
  group_concat_max_len :: nat

text \<open>
  Modelled from the spec: \<open>core.exceptions\<close> is not part of the sources. The first
  four are the domain errors, subclasses of \<open>PromptException\<close>; \<open>PromptException\<close>
  itself is what the service raises for an unexpected failure. \<open>TypeError\<close> is Python's
  (subscripting or iterating \<open>None\<close>); \<open>IntegrityError\<close> and \<open>ProgrammingError\<close> are
  the database driver's.
\<close>

datatype exn =
    DataValidationError
  | UnauthorizedError
  | RecordNotFoundError
  | ConstraintViolationError
  | PromptException
  | TypeError
  | IntegrityError
  | ProgrammingError

fun is_PromptException :: "exn \<Rightarrow> bool" where
  "is_PromptException DataValidationError = True"
| "is_PromptException UnauthorizedError = True"
| "is_PromptException RecordNotFoundError = True"
| "is_PromptException ConstraintViolationError = True"
| "is_PromptException PromptException = True"
| "is_PromptException TypeError = False"
| "is_PromptException IntegrityError = False"
| "is_PromptException ProgrammingError = False"

section \<open>data/prompt_repository.py\<close>

text \<open>
  A repository method that writes returns the store as the method leaves it (also when
  it raises: the statements executed before the exception have taken effect inside the
  open transaction) together with its outcome, \<open>Inl\<close> the exception raised.
\<close>

text \<open>
  The clause every scoped statement appends: \<open>AND prompts.author = %s\<close> with the user's
  name when there is a user, \<open>AND prompts.author IS NULL\<close> otherwise.
\<close>

fun author_clause :: "User option \<Rightarrow> prompt_row \<Rightarrow> bool" where
  "author_clause (Some user) r = (row_author r = Some (username user))"
| "author_clause None r = (row_author r = None)"

text \<open>
  \<open>_check_prompt_ownership\<close>: \<open>fetchone()\<close> is the first row with the guid, or \<open>None\<close>,
  and subscripting \<open>None\<close> raises \<open>TypeError\<close>.
\<close>

definition check_prompt_ownership :: "database \<Rightarrow> string \<Rightarrow> User option \<Rightarrow> exn + unit" where
  "check_prompt_ownership db guid user =
     (case filter (\<lambda>r. row_guid r = guid) (prompts db) of
        [] \<Rightarrow> Inl TypeError
      | r # _ \<Rightarrow>
          if row_author r \<noteq> (case user of Some u \<Rightarrow> Some (username u) | None \<Rightarrow> None)
          then Inl UnauthorizedError else Inr ())"

text \<open>
  \<open>remove_all_tags_from_prompt\<close>: the links that the inner join pairs with a prompt row
  of this guid in the caller's scope are deleted.
\<close>

definition remove_all_tags_from_prompt :: "database \<Rightarrow> string \<Rightarrow> User option \<Rightarrow> database" where
  "remove_all_tags_from_prompt db guid user =
     db\<lparr>prompt_tags :=
          filter (\<lambda>(pid, tid). \<not> list_ex (\<lambda>r. row_id r = pid \<and> row_guid r = guid \<and> author_clause user r)
                                   (prompts db))
            (prompt_tags db)\<rparr>"

text \<open>
  \<open>add_tag_to_prompt\<close>. The first statement inserts the tag unless the unique key on
  \<open>tags.tag\<close> already holds it. The second inserts one link for every pair of a prompt row
  (this guid, the caller's scope) and a tag row (this tag); under the uniqueness
  constraint a pair that is already linked makes the statement fail as a whole.
\<close>

definition upsert_tag :: "database \<Rightarrow> string \<Rightarrow> database" where
  "upsert_tag db tag =
     (if list_ex (\<lambda>(i, t). t = tag) (tags db) then db
      else db\<lparr>tags := tags db @ [(next_tag_id db, tag)], next_tag_id := Suc (next_tag_id db)\<rparr>)"

definition selected_links :: "database \<Rightarrow> string \<Rightarrow> string \<Rightarrow> User option \<Rightarrow> (nat \<times> nat) list" where
  "selected_links db guid tag user =
     concat (map (\<lambda>r. map (\<lambda>(i, t). (row_id r, i)) (filter (\<lambda>(i, t). t = tag) (tags db)))
                 (filter (\<lambda>r. row_guid r = guid \<and> author_clause user r) (prompts db)))"

definition add_tag_to_prompt ::
  "schema \<Rightarrow> database \<Rightarrow> string \<Rightarrow> string \<Rightarrow> User option \<Rightarrow> database \<times> (exn + unit)" where
  "add_tag_to_prompt sc db guid tag user =
     (let db1 = upsert_tag db tag;
          new = selected_links db1 guid tag user
      in if link_unique sc \<and> (list_ex (\<lambda>l. l \<in> set (prompt_tags db1)) new \<or> \<not> distinct new)
         then (db1, Inl IntegrityError)
         else (db1\<lparr>prompt_tags := prompt_tags db1 @ new\<rparr>, Inr ()))"

text \<open>The loop \<open>for tag in tags: self.add_tag_to_prompt(guid, tag, user)\<close>.\<close>

fun add_tags ::
  "schema \<Rightarrow> database \<Rightarrow> string \<Rightarrow> string list \<Rightarrow> User option \<Rightarrow> database \<times> (exn + unit)" where
  "add_tags sc db guid [] user = (db, Inr ())"
| "add_tags sc db guid (tag # rest) user =
     (case add_tag_to_prompt sc db guid tag user of
        (db1, Inl e) \<Rightarrow> (db1, Inl e)
      | (db1, Inr _) \<Rightarrow> add_tags sc db1 guid rest user)"

text \<open>\<open>_update_tags\<close>; iterating over \<open>None\<close> raises \<open>TypeError\<close>.\<close>

definition update_tags ::
  "schema \<Rightarrow> database \<Rightarrow> string \<Rightarrow> string list option \<Rightarrow> User option \<Rightarrow> database \<times> (exn + unit)" where
  "update_tags sc db guid tgs user =
     (case check_prompt_ownership db guid user of
        Inl e \<Rightarrow> (db, Inl e)
      | Inr _ \<Rightarrow>
          (let db1 = remove_all_tags_from_prompt db guid user
           in case tgs of
                None \<Rightarrow> (db1, Inl TypeError)
              | Some ts \<Rightarrow> add_tags sc db1 guid ts user))"

text \<open>
  \<open>create_prompt\<close>. \<open>core.make_guid()\<close> is not part of the sources: the guid it returns
  is the argument \<open>prompt_guid\<close>.
\<close>

definition create_prompt ::
  "schema \<Rightarrow> database \<Rightarrow> string \<Rightarrow> PromptCreate \<Rightarrow> User option \<Rightarrow> database \<times> (exn + string)" where
  "create_prompt sc db prompt_guid prompt author =
     (let db1 = db\<lparr>prompts := prompts db @
                       [\<lparr>row_id = next_prompt_id db, row_guid = prompt_guid,
                         row_content = pc_content prompt,
                         row_display_name = pc_display_name prompt,
                         row_author = (case author of Some a \<Rightarrow> Some (username a) | None \<Rightarrow> None)\<rparr>],
                    next_prompt_id := Suc (next_prompt_id db)\<rparr>
      in case update_tags sc db1 prompt_guid (pc_tags prompt) author of
           (db2, Inl e) \<Rightarrow> (db2, Inl e)
         | (db2, Inr _) \<Rightarrow> (db2, Inr prompt_guid))"

text \<open>
  \<open>update_prompt\<close>. \<open>set_fields\<close> is the loop over \<open>prompt.dict(exclude_unset=True)\<close>:
  the (column, parameter) pairs of the SET clause, so that \<open>setting_a_field\<close> is
  \<open>set_fields prompt \<noteq> []\<close>.
\<close>

definition getattr_scalar :: "PromptUpdate \<Rightarrow> string \<Rightarrow> string option" where
  "getattr_scalar p f =
     (if f = ''content'' then pu_content p
      else if f = ''display_name'' then pu_display_name p
      else None)"

definition set_fields :: "PromptUpdate \<Rightarrow> (string \<times> string) list" where
  "set_fields p =
     concat (map (\<lambda>f. if f \<notin> set [''guid'', ''tags'']
                       then (case getattr_scalar p f of Some v \<Rightarrow> [(f, v)] | None \<Rightarrow> [])
                       else [])
                 (dict_exclude_unset p))"

fun assign :: "string \<times> string \<Rightarrow> prompt_row \<Rightarrow> prompt_row" where
  "assign (f, v) r =
     (if f = ''content'' then r\<lparr>row_content := v\<rparr>
      else if f = ''display_name'' then r\<lparr>row_display_name := v\<rparr>
      else r)"

text \<open>\<open>UPDATE prompts SET ... WHERE guid = %s\<close>.\<close>

definition execute_update :: "database \<Rightarrow> (string \<times> string) list \<Rightarrow> string \<Rightarrow> database" where
  "execute_update db params guid =
     db\<lparr>prompts := map (\<lambda>r. if row_guid r = guid then fold assign params r else r) (prompts db)\<rparr>"

definition update_prompt ::
  "schema \<Rightarrow> database \<Rightarrow> string \<Rightarrow> PromptUpdate \<Rightarrow> User option \<Rightarrow> database \<times> (exn + unit)" where
  "update_prompt sc db guid prompt user =
     (let params = set_fields prompt;
          setting_a_field = (params \<noteq> [])
      in if \<not> setting_a_field \<and> pu_tags prompt = None then (db, Inl DataValidationError)
         else
           (let db1 = (if setting_a_field then execute_update db params guid else db)
            in if pu_tags prompt \<noteq> None
               then update_tags sc db1 guid (pu_tags prompt) user
               else (db1, Inr ())))"

text \<open>
  \<open>DELETE FROM prompts WHERE guid = %s\<close>. With a restricting foreign key the statement
  fails when a link still references a row it would delete; with a cascading one the
  engine deletes those links with the row.
\<close>

definition delete_from_prompts :: "schema \<Rightarrow> database \<Rightarrow> string \<Rightarrow> exn + database" where
  "delete_from_prompts sc db guid =
     (let gone = map row_id (filter (\<lambda>r. row_guid r = guid) (prompts db));
          kept = filter (\<lambda>r. row_guid r \<noteq> guid) (prompts db)
      in case on_delete sc of
           NoForeignKey \<Rightarrow> Inr (db\<lparr>prompts := kept\<rparr>)
         | Restrict \<Rightarrow>
             if list_ex (\<lambda>(pid, tid). pid \<in> set gone) (prompt_tags db) then Inl IntegrityError
             else Inr (db\<lparr>prompts := kept\<rparr>)
         | Cascade \<Rightarrow>
             Inr (db\<lparr>prompts := kept,
                     prompt_tags := filter (\<lambda>(pid, tid). pid \<notin> set gone) (prompt_tags db)\<rparr>))"

definition delete_prompt ::
  "schema \<Rightarrow> database \<Rightarrow> string \<Rightarrow> User option \<Rightarrow> database \<times> (exn + unit)" where
  "delete_prompt sc db guid user =
     (case check_prompt_ownership db guid user of
        Inl e \<Rightarrow> (db, Inl e)
      | Inr _ \<Rightarrow>
          (case delete_from_prompts sc db guid of
             Inl e \<Rightarrow> (db, Inl e)
           | Inr db1 \<Rightarrow> (remove_all_tags_from_prompt db1 guid user, Inr ())))"

subsection \<open>The read statements\<close>

text \<open>
  \<open>prompts LEFT JOIN prompt_tags LEFT JOIN tags\<close>: the \<open>tags.tag\<close> column of the joined
  rows of one prompt row, \<open>None\<close> for SQL's NULL. \<open>prompts.id\<close> is the primary key, so a
  group of \<open>GROUP BY prompts.id\<close> is the joined rows of one prompt row.
\<close>

definition joined_tags :: "database \<Rightarrow> prompt_row \<Rightarrow> string option list" where
  "joined_tags db r =
     (case filter (\<lambda>(pid, tid). pid = row_id r) (prompt_tags db) of
        [] \<Rightarrow> [None]
      | ls \<Rightarrow> concat (map (\<lambda>(pid, tid).
                 (case filter (\<lambda>(i, t). i = tid) (tags db) of
                    [] \<Rightarrow> [None]
                  | ts \<Rightarrow> map (\<lambda>(i, t). Some t) ts)) ls))"

fun join_comma :: "string list \<Rightarrow> string" where
  "join_comma [] = []"
| "join_comma [t] = t"
| "join_comma (t # ts) = t @ '','' @ join_comma ts"

text \<open>
  \<open>GROUP_CONCAT\<close> skips NULL, is NULL when nothing is left, and otherwise is the values
  joined by commas, cut at \<open>max_len\<close> bytes (a \<open>char\<close> is a byte).
\<close>

definition GROUP_CONCAT :: "nat \<Rightarrow> string option list \<Rightarrow> string option" where
  "GROUP_CONCAT max_len vs =
     (case concat (map (\<lambda>v. case v of None \<Rightarrow> [] | Some t \<Rightarrow> [t]) vs) of
        [] \<Rightarrow> None
      | ts \<Rightarrow> Some (take max_len (join_comma ts)))"

text \<open>Python's \<open>s.split(',')\<close>: never the empty list.\<close>

fun split_comma :: "string \<Rightarrow> string list" where
  "split_comma [] = [[]]"
| "split_comma (c # cs) =
     (if c = CHR '','' then [] # split_comma cs
      else (c # hd (split_comma cs)) # tl (split_comma cs))"

record result_dict =
  rd_id :: nat
  rd_content :: string
  rd_display_name :: string
  rd_author :: "string option"
  rd_tags :: "string list"
  rd_guid :: string

text \<open>\<open>result["tags"].split(',') if result["tags"] else []\<close>: NULL and the empty string are falsy.\<close>

definition make_result_dict :: "prompt_row \<times> string option \<Rightarrow> result_dict" where
  "make_result_dict result =
     \<lparr>rd_id = row_id (fst result),
      rd_content = row_content (fst result),
      rd_display_name = row_display_name (fst result),
      rd_author = row_author (fst result),
      rd_tags = (case snd result of
                   None \<Rightarrow> []
                 | Some s \<Rightarrow> if s = [] then [] else split_comma s),
      rd_guid = row_guid (fst result)\<rparr>"

text \<open>\<open>Prompt(**result_dict)\<close>: the model has no \<open>author\<close> field and ignores the key.\<close>

definition Prompt_init :: "result_dict \<Rightarrow> Prompt" where
  "Prompt_init d =
     \<lparr>p_content = Some (rd_content d),
      p_display_name = Some (rd_display_name d),
      p_tags = Some (rd_tags d),
      p_id = rd_id d,
      p_guid = rd_guid d\<rparr>"

text \<open>The result set of a grouped select whose WHERE clause reads the prompt row only.\<close>

definition select_grouped :: "database \<Rightarrow> (prompt_row \<Rightarrow> bool) \<Rightarrow> (prompt_row \<times> string option) list" where
  "select_grouped db wh = map (\<lambda>r. (r, GROUP_CONCAT (group_concat_max_len db) (joined_tags db r))) (filter wh (prompts db))"

definition get_prompt :: "database \<Rightarrow> string \<Rightarrow> User option \<Rightarrow> exn + Prompt" where
  "get_prompt db guid user =
     (case select_grouped db (\<lambda>r. row_guid r = guid \<and> author_clause user r) of
        [] \<Rightarrow> Inl RecordNotFoundError
      | result # _ \<Rightarrow> Inr (Prompt_init (make_result_dict result)))"

definition get_prompt_by_name :: "database \<Rightarrow> string \<Rightarrow> User option \<Rightarrow> exn + Prompt" where
  "get_prompt_by_name db name user =
     (case select_grouped db (\<lambda>r. row_display_name r = name \<and> author_clause user r) of
        [] \<Rightarrow> Inl RecordNotFoundError
      | result # _ \<Rightarrow> Inr (Prompt_init (make_result_dict result)))"

definition list_prompts :: "database \<Rightarrow> User option \<Rightarrow> exn + Prompt list" where
  "list_prompts db user =
     Inr (map (\<lambda>result. Prompt_init (make_result_dict result))
              (select_grouped db (author_clause user)))"

text \<open>
  \<open>list_prompts_by_tags\<close>: \<open>WHERE tags.tag IN (...)\<close> keeps the joined rows whose tag is in
  the list (a NULL tag is in no list), so a prompt row has a group when one of its joined
  rows is kept, and \<open>GROUP_CONCAT\<close> sees the kept rows only. With no tag the statement
  reads \<open>IN ()\<close>, which the server rejects.
\<close>

definition list_prompts_by_tags :: "database \<Rightarrow> string list \<Rightarrow> User option \<Rightarrow> exn + Prompt list" where
  "list_prompts_by_tags db tags_list user =
     (if tags_list = [] then Inl ProgrammingError
      else Inr (map (\<lambda>result. Prompt_init (make_result_dict result))
             (concat (map (\<lambda>r.
                 (let kept = filter (\<lambda>v. case v of None \<Rightarrow> False | Some t \<Rightarrow> t \<in> set tags_list)
                                    (joined_tags db r)
                  in if kept \<noteq> [] \<and> author_clause user r then [(r, GROUP_CONCAT (group_concat_max_len db) kept)] else []))
               (prompts db)))))"

section \<open>service/prompt_service.py\<close>

text \<open>
  The two handlers every method has: a \<open>PromptException\<close> (a domain error) is raised
  again as it is, any other exception becomes a plain \<open>PromptException\<close>.
\<close>

definition reraise :: "exn \<Rightarrow> exn" where
  "reraise e = (if is_PromptException e then e else PromptException)"

text \<open>
  Modelled from the spec: \<open>DatabaseContext\<close> is not part of the sources.
  \<open>begin_transaction\<close> ... \<open>commit_transaction\<close> makes the repository's writes the new
  store; \<open>rollback_transaction\<close> restores the store as it was at \<open>begin_transaction\<close>.
  A service method returns the store it leaves and its outcome.
\<close>

definition transactional :: "database \<Rightarrow> database \<times> (exn + 'a) \<Rightarrow> database \<times> (exn + 'a)" where
  "transactional db res =
     (case res of
        (db1, Inr v) \<Rightarrow> (db1, Inr v)
      | (db1, Inl e) \<Rightarrow> (db, Inl (reraise e)))"

definition read_only :: "exn + 'a \<Rightarrow> exn + 'a" where
  "read_only res = (case res of Inr v \<Rightarrow> Inr v | Inl e \<Rightarrow> Inl (reraise e))"

definition service_create_prompt ::
  "schema \<Rightarrow> database \<Rightarrow> string \<Rightarrow> PromptCreate \<Rightarrow> User option \<Rightarrow> database \<times> (exn + string)" where
  "service_create_prompt sc db prompt_guid prompt author =
     transactional db (create_prompt sc db prompt_guid prompt author)"

definition service_update_prompt ::
  "schema \<Rightarrow> database \<Rightarrow> string \<Rightarrow> PromptUpdate \<Rightarrow> User option \<Rightarrow> database \<times> (exn + unit)" where
  "service_update_prompt sc db guid prompt user =
     transactional db (update_prompt sc db guid (PromptUpdate_revalidate prompt) user)"

definition service_delete_prompt ::
  "schema \<Rightarrow> database \<Rightarrow> string \<Rightarrow> User option \<Rightarrow> database \<times> (exn + unit)" where
  "service_delete_prompt sc db guid user = transactional db (delete_prompt sc db guid user)"

definition service_add_tag_to_prompt ::
  "schema \<Rightarrow> database \<Rightarrow> string \<Rightarrow> string \<Rightarrow> User option \<Rightarrow> database \<times> (exn + unit)" where
  "service_add_tag_to_prompt sc db guid tag user =
     transactional db (add_tag_to_prompt sc db guid tag user)"

definition service_get_prompt :: "database \<Rightarrow> string \<Rightarrow> User option \<Rightarrow> exn + Prompt" where
  "service_get_prompt db guid user = read_only (get_prompt db guid user)"

text \<open>
  \<open>list_prompts_by_tags\<close> of the service: \<open>tags.split(',')\<close>, then
  \<open>if not tags_list: raise DataValidationError\<close>, then the repository.
\<close>

definition service_list_prompts_by_tags :: "database \<Rightarrow> string \<Rightarrow> User option \<Rightarrow> exn + Prompt list" where
  "service_list_prompts_by_tags db tgs user =
     read_only
       (let tags_list = split_comma tgs
        in if tags_list = [] then Inl DataValidationError
           else list_prompts_by_tags db tags_list user)"

section \<open>Invariants of the store\<close>

text \<open>
  What the storage engine maintains for the \<open>tags\<close> table: the primary key \<open>id\<close> and
  the unique key \<open>tag\<close> have no duplicates, and the counter is above every id assigned.
\<close>

definition tags_table_ok :: "database \<Rightarrow> bool" where
  "tags_table_ok db \<longleftrightarrow>
     distinct (map fst (tags db)) \<and> distinct (map snd (tags db)) \<and>
     list_all (\<lambda>(i, t). i < next_tag_id db) (tags db)"

text \<open>
  A well-formed store: the tags table is in order, and the counter of \<open>prompts.id\<close> is
  above the id of every prompt row and above every prompt id a link mentions (ids are not
  reused, so a link left behind by a deleted prompt never meets a new prompt).
\<close>

definition wf_db :: "database \<Rightarrow> bool" where
  "wf_db db \<longleftrightarrow>
     tags_table_ok db \<and>
     list_all (\<lambda>r. row_id r < next_prompt_id db) (prompts db) \<and>
     list_all (\<lambda>(pid, tid). pid < next_prompt_id db) (prompt_tags db)"

text \<open>The tag strings linked to a prompt id, in link order.\<close>

definition tag_strings :: "database \<Rightarrow> nat \<Rightarrow> string list" where
  "tag_strings db pid =
     concat (map (\<lambda>(p, tid). map snd (filter (\<lambda>(i, t). i = tid) (tags db)))
                 (filter (\<lambda>(p, tid). p = pid) (prompt_tags db)))"

text \<open>
  The invariant of the add-each loop of \<open>_update_tags\<close> when exactly one prompt row,
  \<open>r0\<close>, has the guid in the caller's scope: the tags table is in order and the links of
  \<open>r0\<close> point below the tag counter.
\<close>

definition add_inv :: "database \<Rightarrow> string \<Rightarrow> User option \<Rightarrow> prompt_row \<Rightarrow> bool" where
  "add_inv d g user r0 \<longleftrightarrow>
     tags_table_ok d \<and>
     filter (\<lambda>r. row_guid r = g \<and> author_clause user r) (prompts d) = [r0] \<and>
     list_all (\<lambda>(p, tid). tid < next_tag_id d \<or> p \<noteq> row_id r0) (prompt_tags d)"

section \<open>Concrete stores\<close>

text \<open>
  The schema as the spec prescribes it, two users, and a store with a private prompt of
  alice tagged \<open>a\<close> and \<open>b\<close> and a public prompt with no tag, on a server with the
  default \<open>group_concat_max_len\<close>.
\<close>

definition spec_schema :: schema where
  "spec_schema = \<lparr>link_unique = True, on_delete = NoForeignKey\<rparr>"

definition alice :: User where
  "alice = \<lparr>username = ''alice'', password = ''pw'', class_key = ''k''\<rparr>"

definition bob :: User where
  "bob = \<lparr>username = ''bob'', password = ''pw'', class_key = ''k''\<rparr>"

definition example_db :: database where
  "example_db =
     \<lparr>prompts =
        [\<lparr>row_id = 1, row_guid = ''g1'', row_content = ''c1'', row_display_name = ''n1'',
          row_author = Some ''alice''\<rparr>,
         \<lparr>row_id = 2, row_guid = ''g2'', row_content = ''c2'', row_display_name = ''n2'',
          row_author = None\<rparr>],
      tags = [(1, ''a''), (2, ''b'')],
      prompt_tags = [(1, 1), (1, 2)],
      next_prompt_id = 3,
      next_tag_id = 3,
      group_concat_max_len = 1024\<rparr>"

section \<open>Facts about the statements\<close>

lemma fold_assign_fixed [simp]:
  "row_guid (fold assign ps r) = row_guid r"
  "row_id (fold assign ps r) = row_id r"
  "row_author (fold assign ps r) = row_author r"
  by (induction ps arbitrary: r) auto

lemma author_clause_iff: "author_clause user r \<longleftrightarrow> row_author r = map_option username user"
  by (cases user) auto

lemma author_clause_fold_assign [simp]:
  "author_clause user (fold assign ps r) = author_clause user r"
  by (simp add: author_clause_iff)

lemma execute_update_Nil [simp]: "execute_update db [] g = db"
  by (simp add: execute_update_def cong: if_cong)

lemma filter_guid_execute_update:
  "filter (\<lambda>r. row_guid r = g) (prompts (execute_update db ps g')) =
   map (\<lambda>r. if row_guid r = g' then fold assign ps r else r)
       (filter (\<lambda>r. row_guid r = g) (prompts db))"
proof -
  have "(\<lambda>r. row_guid (if row_guid r = g' then fold assign ps r else r) = g) =
        (\<lambda>r. row_guid r = g)"
    by (rule ext) simp
  then show ?thesis
    by (simp add: execute_update_def filter_map o_def cong: if_cong)
qed

lemma check_prompt_ownership_cases:
  "check_prompt_ownership db guid user =
     (case filter (\<lambda>r. row_guid r = guid) (prompts db) of
        [] \<Rightarrow> Inl TypeError
      | r # _ \<Rightarrow> if row_author r \<noteq> map_option username user
                 then Inl UnauthorizedError else Inr ())"
proof -
  have eq: "(case user of Some u \<Rightarrow> Some (username u) | None \<Rightarrow> None) = map_option username user"
    by (cases user) simp_all
  show ?thesis
    unfolding check_prompt_ownership_def eq ..
qed

lemma check_unauthorized_iff:
  "check_prompt_ownership db guid user = Inl UnauthorizedError \<longleftrightarrow>
   (\<exists>r rest. filter (\<lambda>r. row_guid r = guid) (prompts db) = r # rest \<and>
              row_author r \<noteq> map_option username user)"
  by (auto simp: check_prompt_ownership_cases split: list.splits)

lemma check_prompt_ownership_execute_update [simp]:
  "check_prompt_ownership (execute_update db ps g') g user = check_prompt_ownership db g user"
  unfolding check_prompt_ownership_def filter_guid_execute_update
  by (cases "filter (\<lambda>r. row_guid r = g) (prompts db)") auto

lemma check_missing:
  "filter (\<lambda>r. row_guid r = guid) (prompts db) = [] \<Longrightarrow>
   check_prompt_ownership db guid user = Inl TypeError"
  by (simp add: check_prompt_ownership_def)

lemma pu_tags_revalidate [simp]: "pu_tags (PromptUpdate_revalidate p) = pu_tags p"
  by (simp add: PromptUpdate_revalidate_def PromptUpdate_init_def)

lemma pu_tags_init_default [simp]: "pu_tags (PromptUpdate_init c d None) = Some []"
  by (simp add: PromptUpdate_init_def)

lemma set_fields_init_none [simp]: "set_fields (PromptUpdate_init None None t) = []"
  by (simp add: set_fields_def dict_exclude_unset_def PromptUpdate_init_def getattr_scalar_def
      split: option.splits)

lemma split_comma_not_Nil [simp]: "split_comma s \<noteq> []"
  by (induction s) auto

lemma prompts_upsert_tag [simp]: "prompts (upsert_tag db t) = prompts db"
  by (simp add: upsert_tag_def)

lemma prompts_add_tag_to_prompt [simp]:
  "prompts (fst (add_tag_to_prompt sc db g t u)) = prompts db"
  by (simp add: add_tag_to_prompt_def Let_def)

lemma prompts_add_tags [simp]: "prompts (fst (add_tags sc db g ts u)) = prompts db"
proof (induction ts arbitrary: db)
  case Nil
  show ?case by simp
next
  case (Cons t ts)
  show ?case
    using Cons.IH [of "fst (add_tag_to_prompt sc db g t u)"]
    by (cases "add_tag_to_prompt sc db g t u")
       (auto split: sum.splits dest: arg_cong [where f = "\<lambda>x. prompts (fst x)"])
qed

lemma prompts_remove_all [simp]: "prompts (remove_all_tags_from_prompt db g u) = prompts db"
  by (simp add: remove_all_tags_from_prompt_def)

lemma prompts_update_tags [simp]: "prompts (fst (update_tags sc db g tgs u)) = prompts db"
  by (simp add: update_tags_def Let_def split: sum.splits option.splits)

lemma add_tags_outcome:
  "snd (add_tags sc db guid ts user) = Inr () \<or>
   snd (add_tags sc db guid ts user) = Inl IntegrityError"
proof (induction ts arbitrary: db)
  case Nil
  show ?case by simp
next
  case (Cons t ts)
  obtain d o1 where r: "add_tag_to_prompt sc db guid t user = (d, o1)"
    by (cases "add_tag_to_prompt sc db guid t user")
  have "o1 = Inr () \<or> o1 = Inl IntegrityError"
    using r by (auto simp: add_tag_to_prompt_def Let_def split: if_splits)
  then show ?case using r Cons.IH [of d] by auto
qed

lemma update_tags_outcome:
  "snd (update_tags sc db guid tgs user)
     \<in> {Inr (), Inl IntegrityError, Inl TypeError, Inl UnauthorizedError}"
  using add_tags_outcome [of sc "remove_all_tags_from_prompt db guid user" guid _ user]
  by (auto simp: update_tags_def check_prompt_ownership_def Let_def
      split: list.splits option.splits)

lemma update_tags_unauthorized:
  "snd (update_tags sc db guid (Some ts) user) = Inl UnauthorizedError \<longleftrightarrow>
   check_prompt_ownership db guid user = Inl UnauthorizedError"
  using add_tags_outcome [of sc "remove_all_tags_from_prompt db guid user" guid ts user]
  by (cases "check_prompt_ownership db guid user")
     (auto simp: update_tags_def Let_def check_prompt_ownership_cases
        split: list.splits if_splits)

subsection \<open>The read statements\<close>

lemma Some_in_joined_tags:
  "Some t \<in> set (joined_tags db r) \<longleftrightarrow>
   (\<exists>(pid, tid) \<in> set (prompt_tags db). \<exists>(i, t') \<in> set (tags db).
       pid = row_id r \<and> i = tid \<and> t' = t)"
proof -
  let ?ls = "filter (\<lambda>(pid, tid). pid = row_id r) (prompt_tags db)"
  let ?f = "\<lambda>(pid :: nat, tid). (case filter (\<lambda>(i, t). i = tid) (tags db) of
                    [] \<Rightarrow> [None]
                  | ts \<Rightarrow> map (\<lambda>(i, t). Some t) ts)"
  have one: "Some t \<in> set (?f (pid, tid)) \<longleftrightarrow> (\<exists>(i, t') \<in> set (tags db). i = tid \<and> t' = t)"
    for pid tid
  proof (cases "filter (\<lambda>(i, t). i = tid) (tags db)")
    case Nil
    then have "\<forall>x \<in> set (tags db). \<not> (\<lambda>(i, t). i = tid) x"
      by (simp add: filter_empty_conv)
    with Nil show ?thesis by auto
  next
    case (Cons a as)
    have "Some t \<in> set (?f (pid, tid)) \<longleftrightarrow> Some t \<in> (\<lambda>(i, t). Some t) ` set (filter (\<lambda>(i, t). i = tid) (tags db))"
      using Cons by simp
    also have "\<dots> \<longleftrightarrow> (\<exists>(i, t') \<in> set (tags db). i = tid \<and> t' = t)"
      by (auto simp: image_iff)
    finally show ?thesis .
  qed
  have j: "joined_tags db r = (if ?ls = [] then [None] else concat (map ?f ?ls))"
    by (simp add: joined_tags_def split: list.splits)
  have "Some t \<in> set (joined_tags db r) \<longleftrightarrow> (\<exists>l \<in> set ?ls. Some t \<in> set (?f l))"
  proof (cases "?ls = []")
    case True
    then show ?thesis unfolding j by simp
  next
    case False
    then show ?thesis unfolding j by simp
  qed
  also have "\<dots> \<longleftrightarrow> (\<exists>(pid, tid) \<in> set (prompt_tags db). pid = row_id r \<and> Some t \<in> set (?f (pid, tid)))"
    by auto
  also have "\<dots> \<longleftrightarrow> (\<exists>(pid, tid) \<in> set (prompt_tags db). \<exists>(i, t') \<in> set (tags db).
       pid = row_id r \<and> i = tid \<and> t' = t)"
    unfolding one by auto
  finally show ?thesis .
qed

lemma kept_nonempty_iff:
  "filter (\<lambda>v. case v of None \<Rightarrow> False | Some t \<Rightarrow> t \<in> set tgs) (joined_tags db r) \<noteq> [] \<longleftrightarrow>
   (\<exists>(pid, tid) \<in> set (prompt_tags db). \<exists>(i, t) \<in> set (tags db).
       pid = row_id r \<and> i = tid \<and> t \<in> set tgs)"
proof -
  have "filter (\<lambda>v. case v of None \<Rightarrow> False | Some t \<Rightarrow> t \<in> set tgs) (joined_tags db r) \<noteq> [] \<longleftrightarrow>
        (\<exists>t \<in> set tgs. Some t \<in> set (joined_tags db r))"
    by (auto simp: filter_empty_conv split: option.splits)
  then show ?thesis
    unfolding Some_in_joined_tags by auto
qed

lemma concat_map_if_singleton:
  "concat (map (\<lambda>x. if P x then [f x] else []) xs) = map f (filter P xs)"
  by (induction xs) auto

lemma Prompt_init_fields [simp]:
  "p_id (Prompt_init (make_result_dict (r, s))) = row_id r"
  "p_guid (Prompt_init (make_result_dict (r, s))) = row_guid r"
  "p_content (Prompt_init (make_result_dict (r, s))) = Some (row_content r)"
  "p_display_name (Prompt_init (make_result_dict (r, s))) = Some (row_display_name r)"
  by (simp_all add: Prompt_init_def make_result_dict_def)

lemma select_first:
  "(case select_grouped db wh of [] \<Rightarrow> Inl RecordNotFoundError
      | result # _ \<Rightarrow> Inr (Prompt_init (make_result_dict result))) =
   (case filter wh (prompts db) of [] \<Rightarrow> Inl RecordNotFoundError
      | r # _ \<Rightarrow> Inr (Prompt_init (make_result_dict (r, GROUP_CONCAT (group_concat_max_len db) (joined_tags db r)))))"
  by (simp add: select_grouped_def split: list.splits)

lemma first_match_cases:
  fixes db :: database and wh :: "prompt_row \<Rightarrow> bool"
  defines "res \<equiv> (case filter wh (prompts db) of [] \<Rightarrow> Inl RecordNotFoundError
      | r # _ \<Rightarrow> Inr (Prompt_init (make_result_dict (r, GROUP_CONCAT (group_concat_max_len db) (joined_tags db r)))))"
  shows "(res = Inl RecordNotFoundError \<longleftrightarrow> \<not> (\<exists>r \<in> set (prompts db). wh r))"
    and "res = Inl e \<Longrightarrow> e = RecordNotFoundError"
    and "res = Inr p \<Longrightarrow> \<exists>r \<in> set (prompts db). wh r \<and> p_id p = row_id r \<and> p_guid p = row_guid r
            \<and> p_content p = Some (row_content r) \<and> p_display_name p = Some (row_display_name r)"
proof -
  have e: "(filter wh (prompts db) = []) = (\<not> (\<exists>r \<in> set (prompts db). wh r))"
    by (auto simp: filter_empty_conv)
  show "(res = Inl RecordNotFoundError \<longleftrightarrow> \<not> (\<exists>r \<in> set (prompts db). wh r))"
    unfolding res_def e [symmetric] by (cases "filter wh (prompts db)") simp_all
  show "res = Inl e \<Longrightarrow> e = RecordNotFoundError"
    by (auto simp: res_def split: list.splits)
  show "\<exists>r \<in> set (prompts db). wh r \<and> p_id p = row_id r \<and> p_guid p = row_guid r
            \<and> p_content p = Some (row_content r) \<and> p_display_name p = Some (row_display_name r)"
    if "res = Inr p"
  proof (cases "filter wh (prompts db)")
    case Nil
    with that show ?thesis by (simp add: res_def)
  next
    case (Cons r rs)
    then have "r \<in> set (filter wh (prompts db))" by simp
    then have "r \<in> set (prompts db)" "wh r" by auto
    moreover have "p = Prompt_init (make_result_dict (r, GROUP_CONCAT (group_concat_max_len db) (joined_tags db r)))"
      using that Cons by (simp add: res_def)
    ultimately show ?thesis by auto
  qed
qed

subsection \<open>Splitting the aggregated tags\<close>

lemma split_comma_plain: "CHR '','' \<notin> set t \<Longrightarrow> split_comma t = [t]"
  by (induction t) auto

lemma split_comma_append: "CHR '','' \<notin> set t \<Longrightarrow> split_comma (t @ CHR '','' # rest) = t # split_comma rest"
  by (induction t) auto

lemma split_join:
  "ts \<noteq> [] \<Longrightarrow> \<forall>t \<in> set ts. CHR '','' \<notin> set t \<Longrightarrow> split_comma (join_comma ts) = ts"
  by (induction ts rule: join_comma.induct) (auto simp: split_comma_plain split_comma_append)

lemma join_comma_Nil_iff: "join_comma ts = [] \<longleftrightarrow> ts = [] \<or> ts = [[]]"
  by (induction ts rule: join_comma.induct) auto

lemma concat_Some_strings:
  "concat (map (\<lambda>v. case v of None \<Rightarrow> [] | Some t \<Rightarrow> [t]) (map (\<lambda>(i, t). Some t) xs)) = map snd xs"
  by (induction xs) auto

lemma joined_tags_strings:
  "concat (map (\<lambda>v. case v of None \<Rightarrow> [] | Some t \<Rightarrow> [t]) (joined_tags db r)) = tag_strings db (row_id r)"
proof -
  let ?g = "\<lambda>v :: string option. case v of None \<Rightarrow> [] | Some t \<Rightarrow> [t]"
  let ?ls = "filter (\<lambda>(pid, tid). pid = row_id r) (prompt_tags db)"
  let ?f = "\<lambda>(pid :: nat, tid). (case filter (\<lambda>(i, t). i = tid) (tags db) of
                    [] \<Rightarrow> [None]
                  | ts \<Rightarrow> map (\<lambda>(i, t). Some t) ts)"
  have one: "concat (map ?g (?f l)) = (\<lambda>(p, tid). map snd (filter (\<lambda>(i, t). i = tid) (tags db))) l" for l
  proof (cases l)
    case (Pair p tid)
    show ?thesis
    proof (cases "filter (\<lambda>(i, t). i = tid) (tags db)")
      case Nil
      with Pair show ?thesis by simp
    next
      case (Cons a as)
      with Pair concat_Some_strings [of "a # as"] show ?thesis by simp
    qed
  qed
  have many: "concat (map ?g (concat (map ?f ls))) =
      concat (map (\<lambda>(p, tid). map snd (filter (\<lambda>(i, t). i = tid) (tags db))) ls)" for ls
    by (induction ls) (simp_all add: one del: split_paired_All)
  have j: "joined_tags db r = (if ?ls = [] then [None] else concat (map ?f ?ls))"
    by (simp add: joined_tags_def split: list.splits)
  show ?thesis
  proof (cases "?ls = []")
    case True
    then show ?thesis unfolding j tag_strings_def by simp
  next
    case False
    then show ?thesis unfolding j tag_strings_def using many [of ?ls] by simp
  qed
qed

lemma GROUP_CONCAT_joined:
  "GROUP_CONCAT n (joined_tags db r) =
     (case tag_strings db (row_id r) of [] \<Rightarrow> None | ts \<Rightarrow> Some (take n (join_comma ts)))"
  unfolding GROUP_CONCAT_def joined_tags_strings ..

lemma filter_unique_tag:
  "distinct (map snd xs) \<Longrightarrow> (i, t) \<in> set xs \<Longrightarrow> filter (\<lambda>(j, t'). t' = t) xs = [(i, t)]"
proof (induction xs)
  case Nil
  then show ?case by simp
next
  case (Cons x xs)
  obtain j u where x: "x = (j, u)" by (cases x)
  show ?case
  proof (cases "u = t")
    case True
    with Cons.prems x have "t \<notin> snd ` set xs" by simp
    then have "filter (\<lambda>(j, t'). t' = t) xs = []"
      by (auto simp: filter_empty_conv image_iff)
    moreover from Cons.prems x True have "j = i"
      using \<open>t \<notin> snd ` set xs\<close> by (auto simp: image_iff)
    ultimately show ?thesis using x True by simp
  next
    case False
    with Cons x show ?thesis by auto
  qed
qed

lemma filter_unique_id:
  "distinct (map fst xs) \<Longrightarrow> (i, t) \<in> set xs \<Longrightarrow> filter (\<lambda>(j, t'). j = i) xs = [(i, t)]"
proof (induction xs)
  case Nil
  then show ?case by simp
next
  case (Cons x xs)
  obtain j u where x: "x = (j, u)" by (cases x)
  show ?case
  proof (cases "j = i")
    case True
    with Cons.prems x have ni: "i \<notin> fst ` set xs" by simp
    then have "filter (\<lambda>(j, t'). j = i) xs = []"
      by (auto simp: filter_empty_conv image_iff)
    moreover from Cons.prems x True ni have "u = t"
      by (auto simp: image_iff)
    ultimately show ?thesis using x True by simp
  next
    case False
    with Cons x show ?thesis by auto
  qed
qed

lemma upsert_tag_ok:
  assumes "tags_table_ok db"
  shows "tags_table_ok (upsert_tag db t)"
    and "\<exists>i. (i, t) \<in> set (tags (upsert_tag db t))"
    and "prompt_tags (upsert_tag db t) = prompt_tags db"
    and "next_prompt_id (upsert_tag db t) = next_prompt_id db"
    and "next_tag_id db \<le> next_tag_id (upsert_tag db t)"
    and "set (tags db) \<subseteq> set (tags (upsert_tag db t))"
proof -
  show "prompt_tags (upsert_tag db t) = prompt_tags db"
    and "next_prompt_id (upsert_tag db t) = next_prompt_id db"
    and "next_tag_id db \<le> next_tag_id (upsert_tag db t)"
    and "set (tags db) \<subseteq> set (tags (upsert_tag db t))"
    by (auto simp: upsert_tag_def)
  show "\<exists>i. (i, t) \<in> set (tags (upsert_tag db t))"
    by (auto simp: upsert_tag_def list_ex_iff)
  show "tags_table_ok (upsert_tag db t)"
  proof (cases "list_ex (\<lambda>(i, t'). t' = t) (tags db)")
    case True
    with assms show ?thesis by (simp add: upsert_tag_def)
  next
    case False
    then have nt: "t \<notin> snd ` set (tags db)"
      by (auto simp: list_ex_iff)
    from assms have "next_tag_id db \<notin> fst ` set (tags db)"
      by (auto simp: tags_table_ok_def list_all_iff)
    with assms nt False show ?thesis
      by (auto simp: upsert_tag_def tags_table_ok_def list_all_iff)
  qed
qed


subsection \<open>The add-each loop on a single prompt row\<close>

lemma upsert_tag_tags:
  "tags (upsert_tag d t) = tags d \<or> tags (upsert_tag d t) = tags d @ [(next_tag_id d, t)]"
  by (simp add: upsert_tag_def)

lemma filter_old_id:
  "tid < next_tag_id d \<Longrightarrow>
   filter (\<lambda>(j, u). j = tid) (tags (upsert_tag d t)) = filter (\<lambda>(j, u). j = tid) (tags d)"
  using upsert_tag_tags [of d t] by auto

lemma add_tag_step:
  assumes inv: "add_inv d g user r0"
      and ok: "link_unique sc \<Longrightarrow> t \<notin> set (tag_strings d (row_id r0))"
  shows "\<exists>d'. add_tag_to_prompt sc d g t user = (d', Inr ()) \<and> add_inv d' g user r0 \<and>
              tag_strings d' (row_id r0) = tag_strings d (row_id r0) @ [t]"
proof -
  let ?n = "row_id r0"
  let ?d1 = "upsert_tag d t"
  let ?F = "\<lambda>tg. \<lambda>(p :: nat, tid). map snd (filter (\<lambda>(i :: nat, u :: string). i = tid) tg)"
  from inv have tok: "tags_table_ok d"
    and sel: "filter (\<lambda>r. row_guid r = g \<and> author_clause user r) (prompts d) = [r0]"
    and old: "\<And>p tid. (p, tid) \<in> set (prompt_tags d) \<Longrightarrow> p = ?n \<Longrightarrow> tid < next_tag_id d"
    by (auto simp: add_inv_def list_all_iff)
  note U = upsert_tag_ok [OF tok, of t]
  from U(2) obtain i where i: "(i, t) \<in> set (tags ?d1)" by blast
  from U(1) have d1: "distinct (map fst (tags ?d1))" "distinct (map snd (tags ?d1))"
    and lt: "\<And>j u. (j, u) \<in> set (tags ?d1) \<Longrightarrow> j < next_tag_id ?d1"
    by (auto simp: tags_table_ok_def list_all_iff)
  have new: "selected_links ?d1 g t user = [(?n, i)]"
    by (simp add: selected_links_def sel filter_unique_tag [OF d1(2) i])
  have same: "concat (map (?F (tags ?d1)) (filter (\<lambda>(p, tid). p = ?n) (prompt_tags d)))
                = tag_strings d ?n"
  proof -
    have "map (?F (tags ?d1)) (filter (\<lambda>(p, tid). p = ?n) (prompt_tags d))
        = map (?F (tags d)) (filter (\<lambda>(p, tid). p = ?n) (prompt_tags d))"
      by (rule map_cong) (auto simp: filter_old_id dest: old)
    then show ?thesis unfolding tag_strings_def by (simp only:)
  qed
  have fresh: "(?n, i) \<notin> set (prompt_tags d)" if "link_unique sc"
  proof
    assume m: "(?n, i) \<in> set (prompt_tags d)"
    then have "i < next_tag_id d" by (rule old) simp
    with i upsert_tag_tags [of d t] have "(i, t) \<in> set (tags d)" by auto
    with m have "t \<in> set (tag_strings d ?n)"
      by (force simp: tag_strings_def)
    with ok [OF that] show False by contradiction
  qed
  let ?d' = "?d1\<lparr>prompt_tags := prompt_tags ?d1 @ [(?n, i)]\<rparr>"
  have res: "add_tag_to_prompt sc d g t user = (?d', Inr ())"
    using fresh by (auto simp: add_tag_to_prompt_def Let_def new U(3))
  have str: "tag_strings ?d' ?n = tag_strings d ?n @ [t]"
    using same by (simp add: tag_strings_def U(3) filter_unique_id [OF d1(1) i])
  have "tags_table_ok ?d'"
    using U(1) by (simp add: tags_table_ok_def)
  moreover have "list_all (\<lambda>(p, tid). tid < next_tag_id ?d' \<or> p \<noteq> ?n) (prompt_tags ?d')"
    using old U(5) lt [OF i] by (fastforce simp: list_all_iff U(3))
  ultimately have "add_inv ?d' g user r0"
    using sel by (simp add: add_inv_def)
  with res str show ?thesis by blast
qed

lemma add_tags_fresh:
  assumes "add_inv d g user r0"
      and "link_unique sc \<Longrightarrow> distinct ts \<and> set ts \<inter> set (tag_strings d (row_id r0)) = {}"
  shows "\<exists>d'. add_tags sc d g ts user = (d', Inr ()) \<and> add_inv d' g user r0 \<and>
              tag_strings d' (row_id r0) = tag_strings d (row_id r0) @ ts"
  using assms
proof (induction ts arbitrary: d)
  case Nil
  then show ?case by simp
next
  case (Cons t ts)
  have "link_unique sc \<Longrightarrow> t \<notin> set (tag_strings d (row_id r0))"
    using Cons.prems(2) by auto
  from add_tag_step [OF Cons.prems(1) this]
  obtain d1 where s: "add_tag_to_prompt sc d g t user = (d1, Inr ())"
    and i1: "add_inv d1 g user r0"
    and t1: "tag_strings d1 (row_id r0) = tag_strings d (row_id r0) @ [t]"
    by blast
  have "link_unique sc \<Longrightarrow> distinct ts \<and> set ts \<inter> set (tag_strings d1 (row_id r0)) = {}"
    using Cons.prems(2) t1 by auto
  from Cons.IH [OF i1 this]
  obtain d' where "add_tags sc d1 g ts user = (d', Inr ())" "add_inv d' g user r0"
    "tag_strings d' (row_id r0) = tag_strings d1 (row_id r0) @ ts"
    by blast
  with s t1 show ?case by simp
qed


lemma max_len_upsert_tag [simp]:
  "group_concat_max_len (upsert_tag db t) = group_concat_max_len db"
  by (simp add: upsert_tag_def)

lemma max_len_add_tag_to_prompt [simp]:
  "group_concat_max_len (fst (add_tag_to_prompt sc db g t u)) = group_concat_max_len db"
  by (simp add: add_tag_to_prompt_def Let_def)

lemma max_len_add_tags [simp]:
  "group_concat_max_len (fst (add_tags sc db g ts u)) = group_concat_max_len db"
proof (induction ts arbitrary: db)
  case Nil
  show ?case by simp
next
  case (Cons t ts)
  show ?case
    using Cons.IH [of "fst (add_tag_to_prompt sc db g t u)"]
    by (cases "add_tag_to_prompt sc db g t u")
       (auto split: sum.splits dest: arg_cong [where f = "\<lambda>x. group_concat_max_len (fst x)"])
qed

lemma max_len_remove_all [simp]:
  "group_concat_max_len (remove_all_tags_from_prompt db g u) = group_concat_max_len db"
  by (simp add: remove_all_tags_from_prompt_def)

lemma GROUP_CONCAT_Some:
  "GROUP_CONCAT n (map Some ts) = (case ts of [] \<Rightarrow> None | _ \<Rightarrow> Some (take n (join_comma ts)))"
proof -
  have "concat (map (\<lambda>v. case v of None \<Rightarrow> [] | Some t \<Rightarrow> [t]) (map Some ts)) = ts"
    by (induction ts) auto
  then show ?thesis
    by (simp add: GROUP_CONCAT_def split: list.splits)
qed

lemma GROUP_CONCAT_tag_strings:
  "GROUP_CONCAT n (joined_tags db r) = GROUP_CONCAT n (map Some (tag_strings db (row_id r)))"
  by (simp add: GROUP_CONCAT_joined GROUP_CONCAT_Some split: list.splits)

lemma tags_round_trip:
  assumes "\<forall>t \<in> set ts. CHR '','' \<notin> set t" and "ts \<noteq> [[]]"
      and "length (join_comma ts) \<le> n"
  shows "(case GROUP_CONCAT n (map Some ts) of
            None \<Rightarrow> []
          | Some s \<Rightarrow> if s = [] then [] else split_comma s) = ts"
proof (cases ts)
  case Nil
  then show ?thesis by (simp add: GROUP_CONCAT_def)
next
  case (Cons a as)
  with assms(2) have "join_comma ts \<noteq> []"
    by (simp add: join_comma_Nil_iff)
  moreover have "split_comma (join_comma ts) = ts"
    using Cons assms(1) by (intro split_join) auto
  moreover have "GROUP_CONCAT n (map Some ts) = Some (take n (join_comma ts))"
    by (simp only: GROUP_CONCAT_Some Cons list.case)
  ultimately show ?thesis
    using assms(3) by simp
qed

text \<open>
  What \<open>get_prompt\<close> reads after \<open>create_prompt\<close>, in general: the tags of the input,
  aggregated by the server and split again by \<open>make_result_dict\<close>.
\<close>

lemma create_then_get_tags:
  assumes wf: "wf_db db"
      and fresh: "guid \<notin> row_guid ` set (prompts db)"
      and tgs: "pc_tags prompt = Some ts"
      and uniq: "link_unique sc \<longrightarrow> distinct ts"
  shows "\<exists>db' p.
           create_prompt sc db guid prompt author = (db', Inr guid)
         \<and> service_create_prompt sc db guid prompt author = (db', Inr guid)
         \<and> get_prompt db' guid author = Inr p
         \<and> p_guid p = guid
         \<and> p_content p = Some (pc_content prompt)
         \<and> p_display_name p = Some (pc_display_name prompt)
         \<and> p_tags p = Some (case GROUP_CONCAT (group_concat_max_len db) (map Some ts) of
                              None \<Rightarrow> []
                            | Some s \<Rightarrow> if s = [] then [] else split_comma s)"
proof -
  let ?n = "next_prompt_id db"
  let ?r0 = "\<lparr>row_id = ?n, row_guid = guid, row_content = pc_content prompt,
              row_display_name = pc_display_name prompt,
              row_author = (case author of Some a \<Rightarrow> Some (username a) | None \<Rightarrow> None)\<rparr>"
  let ?db1 = "db\<lparr>prompts := prompts db @ [?r0], next_prompt_id := Suc ?n\<rparr>"
  let ?db2 = "remove_all_tags_from_prompt ?db1 guid author"
  have none: "filter (\<lambda>r. row_guid r = guid) (prompts db) = []"
    using fresh by (auto simp: filter_empty_conv)
  then have none': "filter (\<lambda>r. row_guid r = guid \<and> author_clause author r) (prompts db) = []"
    by (auto simp: filter_empty_conv)
  have ac: "author_clause author ?r0"
    by (cases author) simp_all
  have chk: "check_prompt_ownership ?db1 guid author = Inr ()"
    by (simp add: check_prompt_ownership_def none)
  from wf have tok: "tags_table_ok db"
    and lk: "\<And>p tid. (p, tid) \<in> set (prompt_tags db) \<Longrightarrow> p < ?n"
    by (auto simp: wf_db_def list_all_iff)
  have sub: "set (prompt_tags ?db2) \<subseteq> set (prompt_tags db)"
    by (auto simp: remove_all_tags_from_prompt_def)
  have nolink: "filter (\<lambda>(p, tid). p = ?n) (prompt_tags ?db2) = []"
    using sub lk by (fastforce simp: filter_empty_conv)
  have strs0: "tag_strings ?db2 (row_id ?r0) = []"
    using nolink by (simp add: tag_strings_def)
  have inv: "add_inv ?db2 guid author ?r0"
  proof -
    have "tags_table_ok ?db2"
      using tok by (simp add: tags_table_ok_def remove_all_tags_from_prompt_def)
    moreover have "filter (\<lambda>r. row_guid r = guid \<and> author_clause author r) (prompts ?db2) = [?r0]"
      using ac none' by simp
    moreover have "list_all (\<lambda>(p, tid). tid < next_tag_id ?db2 \<or> p \<noteq> row_id ?r0) (prompt_tags ?db2)"
      using sub lk by (fastforce simp: list_all_iff)
    ultimately show ?thesis by (simp add: add_inv_def)
  qed
  have "link_unique sc \<Longrightarrow> distinct ts \<and> set ts \<inter> set (tag_strings ?db2 (row_id ?r0)) = {}"
    using uniq strs0 by simp
  from add_tags_fresh [OF inv this]
  obtain d' where run: "add_tags sc ?db2 guid ts author = (d', Inr ())"
    and inv': "add_inv d' guid author ?r0"
    and strs: "tag_strings d' (row_id ?r0) = ts"
    using strs0 by auto
  have "group_concat_max_len (fst (add_tags sc ?db2 guid ts author)) = group_concat_max_len db"
    by simp
  then have lim: "group_concat_max_len d' = group_concat_max_len db"
    by (simp add: run)
  have cr: "create_prompt sc db guid prompt author = (d', Inr guid)"
    by (simp add: create_prompt_def update_tags_def chk tgs run Let_def)
  then have sv: "service_create_prompt sc db guid prompt author = (d', Inr guid)"
    by (simp add: service_create_prompt_def transactional_def)
  from inv' have sel: "filter (\<lambda>r. row_guid r = guid \<and> author_clause author r) (prompts d') = [?r0]"
    by (simp add: add_inv_def)
  let ?p = "Prompt_init (make_result_dict
              (?r0, GROUP_CONCAT (group_concat_max_len d') (joined_tags d' ?r0)))"
  have gt: "get_prompt d' guid author = Inr ?p"
    by (simp add: get_prompt_def select_grouped_def sel)
  have gc: "GROUP_CONCAT (group_concat_max_len d') (joined_tags d' ?r0)
              = GROUP_CONCAT (group_concat_max_len db) (map Some ts)"
    unfolding GROUP_CONCAT_tag_strings strs lim ..
  have tg: "p_tags ?p = Some (case GROUP_CONCAT (group_concat_max_len db) (map Some ts) of
                              None \<Rightarrow> []
                            | Some s \<Rightarrow> if s = [] then [] else split_comma s)"
    unfolding gc by (simp add: Prompt_init_def make_result_dict_def)
  have "p_guid ?p = guid" "p_content ?p = Some (pc_content prompt)"
    "p_display_name ?p = Some (pc_display_name prompt)"
    by (simp_all add: Prompt_init_def make_result_dict_def)
  with cr sv gt tg show ?thesis by blast
qed

lemma upsert_tag_present: "list_ex (\<lambda>(i, u). u = t) (tags (upsert_tag db t))"
  by (auto simp: upsert_tag_def list_ex_iff)

lemma selected_links_Nil_iff:
  "selected_links db g t u = [] \<longleftrightarrow>
     filter (\<lambda>r. row_guid r = g \<and> author_clause u r) (prompts db) = [] \<or>
     \<not> list_ex (\<lambda>(i, u). u = t) (tags db)"
  by (auto simp: selected_links_def list_ex_iff filter_empty_conv)

subsection \<open>The update statement\<close>

lemma remove_all_no_link:
  assumes "(pid, tid) \<in> set (prompt_tags (remove_all_tags_from_prompt (execute_update db ps g) guid user))"
      and "r \<in> set (prompts db)" and "row_guid r = guid" and "author_clause user r"
  shows "row_id r \<noteq> pid"
proof
  assume "row_id r = pid"
  let ?r' = "if row_guid r = g then fold assign ps r else r"
  have "?r' \<in> set (prompts (execute_update db ps g))"
    using assms(2) by (auto simp: execute_update_def)
  moreover have "row_id ?r' = pid \<and> row_guid ?r' = guid \<and> author_clause user ?r'"
    using assms(3,4) \<open>row_id r = pid\<close> by simp
  ultimately have "list_ex (\<lambda>r. row_id r = pid \<and> row_guid r = guid \<and> author_clause user r)
      (prompts (execute_update db ps g))"
    unfolding list_ex_iff by blast
  with assms(1) show False
    by (auto simp: remove_all_tags_from_prompt_def)
qed


lemma set_fields_init:
  "set_fields (PromptUpdate_init c d t) =
     (case c of Some (Some v) \<Rightarrow> [(''content'', v)] | _ \<Rightarrow> []) @
     (case d of Some (Some v) \<Rightarrow> [(''display_name'', v)] | _ \<Rightarrow> [])"
  by (simp add: set_fields_def dict_exclude_unset_def PromptUpdate_init_def getattr_scalar_def
      split: option.splits)

lemma pu_tags_init: "pu_tags (PromptUpdate_init c d t) = (case t of None \<Rightarrow> Some [] | Some v \<Rightarrow> v)"
  by (simp add: PromptUpdate_init_def)

text \<open>
  When \<open>update_prompt\<close> does raise \<open>DataValidationError\<close>: exactly when no scalar is
  passed with a value and \<open>tags\<close> is passed as \<open>None\<close>; the store is then untouched.
\<close>

lemma update_prompt_validation_error:
  "(snd (update_prompt sc db guid (PromptUpdate_init c d t) user) = Inl DataValidationError \<longleftrightarrow>
      (c = None \<or> c = Some None) \<and> (d = None \<or> d = Some None) \<and> t = Some None)
 \<and> (snd (update_prompt sc db guid (PromptUpdate_init c d t) user) = Inl DataValidationError \<longrightarrow>
      fst (update_prompt sc db guid (PromptUpdate_init c d t) user) = db)"
proof -
  let ?p = "PromptUpdate_init c d t"
  have sf: "set_fields ?p = [] \<longleftrightarrow> (c = None \<or> c = Some None) \<and> (d = None \<or> d = Some None)"
    by (auto simp: set_fields_init split: option.splits)
  have tg: "pu_tags ?p = None \<longleftrightarrow> t = Some None"
    by (auto simp: pu_tags_init split: option.splits)
  have other: "snd (update_tags sc db1 guid tgs user) \<noteq> Inl DataValidationError" for db1 tgs
    using update_tags_outcome [of sc db1 guid tgs user] by auto
  have "snd (update_prompt sc db guid ?p user) = Inl DataValidationError \<longleftrightarrow>
        set_fields ?p = [] \<and> pu_tags ?p = None"
    using other by (auto simp: update_prompt_def Let_def)
  moreover have "fst (update_prompt sc db guid ?p user) = db"
    if "set_fields ?p = []" "pu_tags ?p = None"
    using that by (simp add: update_prompt_def)
  ultimately show ?thesis
    unfolding sf tg by blast
qed

text \<open>
  The columns after \<open>update_prompt\<close>, whatever its outcome: a row with the guid takes the
  scalars passed with a value and keeps the others; a row with another guid is untouched.
\<close>

lemma update_prompt_columns:
  "prompts (fst (update_prompt sc db guid (PromptUpdate_init c d t) user)) =
     map (\<lambda>r. if row_guid r = guid
               then r\<lparr>row_content := (case c of Some (Some v) \<Rightarrow> v | _ \<Rightarrow> row_content r),
                      row_display_name := (case d of Some (Some v) \<Rightarrow> v | _ \<Rightarrow> row_display_name r)\<rparr>
               else r) (prompts db)"
proof -
  let ?p = "PromptUpdate_init c d t"
  have f: "fold assign (set_fields ?p) r =
      r\<lparr>row_content := (case c of Some (Some v) \<Rightarrow> v | _ \<Rightarrow> row_content r),
        row_display_name := (case d of Some (Some v) \<Rightarrow> v | _ \<Rightarrow> row_display_name r)\<rparr>" for r
    by (simp add: set_fields_init split: option.splits)
  have "prompts (fst (update_prompt sc db guid ?p user)) =
      map (\<lambda>r. if row_guid r = guid then fold assign (set_fields ?p) r else r) (prompts db)"
    by (cases "pu_tags ?p") (auto simp: update_prompt_def Let_def execute_update_def cong: if_cong)
  then show ?thesis unfolding f .
qed

text \<open>
  With a cascading foreign key the engine removes the links of the deleted rows, and the
  tags table is untouched.
\<close>

lemma delete_prompt_cascade:
  assumes "on_delete sc = Cascade"
      and "snd (delete_prompt sc db guid user) = Inr ()"
  shows "prompts (fst (delete_prompt sc db guid user)) = filter (\<lambda>r. row_guid r \<noteq> guid) (prompts db)
       \<and> list_all (\<lambda>(pid, tid). pid \<notin> row_id ` {r \<in> set (prompts db). row_guid r = guid})
                  (prompt_tags (fst (delete_prompt sc db guid user)))
       \<and> tags (fst (delete_prompt sc db guid user)) = tags db"
  using assms
  by (auto simp: delete_prompt_def delete_from_prompts_def Let_def remove_all_tags_from_prompt_def
      list_all_iff split: sum.splits)

subsection \<open>Well-formed stores\<close>

lemma wf_db_upsert_tag: "wf_db db \<Longrightarrow> wf_db (upsert_tag db t)"
  using upsert_tag_ok(1) [of db t]
  by (simp add: wf_db_def upsert_tag_ok(3,4))

lemma wf_db_add_tag_to_prompt:
  assumes "wf_db db"
  shows "wf_db (fst (add_tag_to_prompt sc db g t u))"
proof -
  let ?d1 = "upsert_tag db t"
  from assms have w1: "wf_db ?d1" by (rule wf_db_upsert_tag)
  have "pid < next_prompt_id ?d1" if "(pid, tid) \<in> set (selected_links ?d1 g t u)" for pid tid
    using that w1 by (auto simp: selected_links_def wf_db_def list_all_iff)
  then have "wf_db (?d1\<lparr>prompt_tags := prompt_tags ?d1 @ selected_links ?d1 g t u\<rparr>)"
    using w1 by (auto simp: wf_db_def tags_table_ok_def list_all_iff)
  with w1 show ?thesis
    by (simp add: add_tag_to_prompt_def Let_def)
qed

lemma wf_db_add_tags: "wf_db db \<Longrightarrow> wf_db (fst (add_tags sc db g ts u))"
proof (induction ts arbitrary: db)
  case Nil
  then show ?case by simp
next
  case (Cons t ts)
  from wf_db_add_tag_to_prompt [OF Cons.prems, of sc g t u]
  show ?case
    using Cons.IH [of "fst (add_tag_to_prompt sc db g t u)"]
    by (cases "add_tag_to_prompt sc db g t u") (auto split: sum.splits)
qed

lemma wf_db_remove_all: "wf_db db \<Longrightarrow> wf_db (remove_all_tags_from_prompt db g u)"
  by (auto simp: wf_db_def tags_table_ok_def remove_all_tags_from_prompt_def list_all_iff)

lemma wf_db_update_tags: "wf_db db \<Longrightarrow> wf_db (fst (update_tags sc db g tgs u))"
  by (auto simp: update_tags_def Let_def wf_db_remove_all wf_db_add_tags
      split: sum.splits option.splits)

lemma wf_db_execute_update: "wf_db db \<Longrightarrow> wf_db (execute_update db ps g)"
  by (auto simp: wf_db_def tags_table_ok_def execute_update_def list_all_iff)

text \<open>Every writing method of the repository keeps the store well-formed.\<close>

lemma wf_db_preserved:
  assumes "wf_db db"
  shows "wf_db (fst (create_prompt sc db g pc u))
       \<and> wf_db (fst (update_prompt sc db g pu u))
       \<and> wf_db (fst (delete_prompt sc db g u))
       \<and> wf_db (fst (add_tag_to_prompt sc db g t u))"
proof -
  let ?db1 = "db\<lparr>prompts := prompts db @
                       [\<lparr>row_id = next_prompt_id db, row_guid = g,
                         row_content = pc_content pc,
                         row_display_name = pc_display_name pc,
                         row_author = (case u of Some a \<Rightarrow> Some (username a) | None \<Rightarrow> None)\<rparr>],
                    next_prompt_id := Suc (next_prompt_id db)\<rparr>"
  have "wf_db ?db1"
    using assms by (fastforce simp: wf_db_def tags_table_ok_def list_all_iff)
  from wf_db_update_tags [OF this, of sc g "pc_tags pc" u]
  have c: "wf_db (fst (create_prompt sc db g pc u))"
    by (cases "update_tags sc ?db1 g (pc_tags pc) u")
       (auto simp: create_prompt_def Let_def split: sum.splits)
  have up: "wf_db (fst (update_prompt sc db g pu u))"
    using assms wf_db_update_tags [OF wf_db_execute_update [OF assms], of sc "set_fields pu" g g "pu_tags pu" u]
      wf_db_update_tags [OF assms, of sc g "pu_tags pu" u]
    by (auto simp: update_prompt_def Let_def wf_db_execute_update)
  have "wf_db d" if "delete_from_prompts sc db g = Inr d" for d
    using that assms
    by (auto simp: delete_from_prompts_def Let_def wf_db_def tags_table_ok_def list_all_iff
        split: fk_action.splits if_splits)
  then have d: "wf_db (fst (delete_prompt sc db g u))"
    using assms by (auto simp: delete_prompt_def wf_db_remove_all split: sum.splits)
  from c up d wf_db_add_tag_to_prompt [OF assms] show ?thesis by blast
qed

lemma update_prompt_unauthorized:
  assumes "check_prompt_ownership db guid user = Inl UnauthorizedError"
      and "pu_tags prompt \<noteq> None"
  shows "update_prompt sc db guid prompt user =
           (execute_update db (set_fields prompt) guid, Inl UnauthorizedError)"
  using assms
  by (cases "set_fields prompt = []") (auto simp: update_prompt_def update_tags_def Let_def)

text \<open>
  Where the ownership check of \<open>update_prompt\<close> sits. For every update: (1) \<open>UnauthorizedError\<close> is raised exactly when the tags
  value of the update is not \<open>None\<close> and the first row with the guid has an author other
  than the caller's name (an absent caller matches an absent author only); an update whose
  tags value is \<open>None\<close> never raises it. (2) When it is raised, no tag link and no tag has
  been touched: the check precedes the replacement. (3) The column update reaches every row
  with the guid, whoever its author is, and no other row. (4) When the check passes, the
  method is remove-all followed by add-each on the store the column update left. (5) An
  update whose tags value is \<open>None\<close> is the column update alone, or the validation error
  when no scalar has a value.
\<close>

lemma update_prompt_ownership_check:
  "(snd (update_prompt sc db guid prompt user) = Inl UnauthorizedError \<longleftrightarrow>
      pu_tags prompt \<noteq> None \<and>
      (\<exists>r rest. filter (\<lambda>r. row_guid r = guid) (prompts db) = r # rest \<and>
                 row_author r \<noteq> map_option username user))
 \<and> (snd (update_prompt sc db guid prompt user) = Inl UnauthorizedError \<longrightarrow>
      prompt_tags (fst (update_prompt sc db guid prompt user)) = prompt_tags db \<and>
      tags (fst (update_prompt sc db guid prompt user)) = tags db)
 \<and> prompts (fst (update_prompt sc db guid prompt user)) =
      map (\<lambda>r. if row_guid r = guid then fold assign (set_fields prompt) r else r) (prompts db)
 \<and> (check_prompt_ownership db guid user = Inr () \<longrightarrow>
      (\<forall>ts. pu_tags prompt = Some ts \<longrightarrow>
         update_prompt sc db guid prompt user =
           add_tags sc (remove_all_tags_from_prompt
                          (execute_update db (set_fields prompt) guid) guid user) guid ts user))
 \<and> (pu_tags prompt = None \<longrightarrow>
      update_prompt sc db guid prompt user =
        (if set_fields prompt = [] then (db, Inl DataValidationError)
         else (execute_update db (set_fields prompt) guid, Inr ())))"
proof -
  let ?db1 = "execute_update db (set_fields prompt) guid"
  have upd: "update_prompt sc db guid prompt user =
      (case pu_tags prompt of
         None \<Rightarrow> if set_fields prompt = [] then (db, Inl DataValidationError) else (?db1, Inr ())
       | Some ts \<Rightarrow> update_tags sc ?db1 guid (Some ts) user)"
    by (cases "set_fields prompt = []") (auto simp: update_prompt_def Let_def split: option.splits)
  have a: "snd (update_prompt sc db guid prompt user) = Inl UnauthorizedError \<longleftrightarrow>
      pu_tags prompt \<noteq> None \<and>
      (\<exists>r rest. filter (\<lambda>r. row_guid r = guid) (prompts db) = r # rest \<and>
                 row_author r \<noteq> map_option username user)"
    by (cases "pu_tags prompt")
       (simp_all add: upd update_tags_unauthorized check_unauthorized_iff)
  have b: "prompt_tags (fst (update_prompt sc db guid prompt user)) = prompt_tags db \<and>
      tags (fst (update_prompt sc db guid prompt user)) = tags db"
    if "snd (update_prompt sc db guid prompt user) = Inl UnauthorizedError"
  proof -
    from that a obtain ts where ts: "pu_tags prompt = Some ts" by auto
    with that have "check_prompt_ownership ?db1 guid user = Inl UnauthorizedError"
      by (simp add: upd update_tags_unauthorized)
    then show ?thesis
      by (simp add: upd ts update_tags_def execute_update_def)
  qed
  have c: "prompts (fst (update_prompt sc db guid prompt user)) =
      map (\<lambda>r. if row_guid r = guid then fold assign (set_fields prompt) r else r) (prompts db)"
    by (cases "pu_tags prompt") (auto simp: upd execute_update_def cong: if_cong)
  have d: "update_prompt sc db guid prompt user =
           add_tags sc (remove_all_tags_from_prompt ?db1 guid user) guid ts user"
    if "check_prompt_ownership db guid user = Inr ()" "pu_tags prompt = Some ts" for ts
    using that by (simp add: upd update_tags_def)
  have e: "update_prompt sc db guid prompt user =
        (if set_fields prompt = [] then (db, Inl DataValidationError)
         else (execute_update db (set_fields prompt) guid, Inr ()))"
    if "pu_tags prompt = None"
    using that by (simp add: upd)
  from a b c d e show ?thesis by blast
qed

section \<open>The claims\<close>

text \<open>
  C1. An update that passes \<open>display_name\<close> only should change that column only. The
  \<open>tags\<close> field of \<open>PromptUpdate\<close> defaults to the empty list, not to \<open>None\<close>, so the
  test \<open>prompt.tags is not None\<close> holds and \<open>_update_tags(guid, [], user)\<close> runs: whenever
  the ownership check passes, the update succeeds and, besides setting the column, removes
  the tag links: afterwards no link points to a prompt row of the caller with this guid.
\<close>

theorem update_prompt_display_name_only:
  assumes "check_prompt_ownership db guid user = Inr ()"
  shows "update_prompt sc db guid (PromptUpdate_init None (Some (Some n)) None) user =
           (remove_all_tags_from_prompt (execute_update db [(''display_name'', n)] guid) guid user,
            Inr ())
       \<and> (\<forall>r \<in> set (prompts db). row_guid r = guid \<and> author_clause user r \<longrightarrow>
            row_id r \<notin> fst ` set (prompt_tags (fst (update_prompt sc db guid
                                  (PromptUpdate_init None (Some (Some n)) None) user))))"
proof -
  have u: "update_prompt sc db guid (PromptUpdate_init None (Some (Some n)) None) user =
           (remove_all_tags_from_prompt (execute_update db [(''display_name'', n)] guid) guid user,
            Inr ())"
    using assms by (simp add: update_prompt_def update_tags_def set_fields_init Let_def)
  show ?thesis
    unfolding u using remove_all_no_link [of _ _ db "[(''display_name'', n)]" guid guid user]
    by (auto simp: image_iff)
qed

text \<open>
  On the prompt of alice tagged \<open>a\<close> and \<open>b\<close>: \<open>content\<close> is kept, \<open>display_name\<close> is the
  new one, and the tag set is empty afterwards, in the repository and through the service.
\<close>

theorem update_prompt_display_name_only_witness:
  "check_prompt_ownership example_db ''g1'' (Some alice) = Inr ()
 \<and> get_prompt example_db ''g1'' (Some alice)
     = Inr \<lparr>p_content = Some ''c1'', p_display_name = Some ''n1'', p_tags = Some [''a'', ''b''],
            p_id = 1, p_guid = ''g1''\<rparr>
 \<and> snd (update_prompt spec_schema example_db ''g1''
          (PromptUpdate_init None (Some (Some ''new'')) None) (Some alice)) = Inr ()
 \<and> get_prompt (fst (update_prompt spec_schema example_db ''g1''
          (PromptUpdate_init None (Some (Some ''new'')) None) (Some alice))) ''g1'' (Some alice)
     = Inr \<lparr>p_content = Some ''c1'', p_display_name = Some ''new'', p_tags = Some [],
            p_id = 1, p_guid = ''g1''\<rparr>
 \<and> get_prompt (fst (service_update_prompt spec_schema example_db ''g1''
          (PromptUpdate_init None (Some (Some ''new'')) None) (Some alice))) ''g1'' (Some alice)
     = Inr \<lparr>p_content = Some ''c1'', p_display_name = Some ''new'', p_tags = Some [],
            p_id = 1, p_guid = ''g1''\<rparr>"
proof -
  have chk: "check_prompt_ownership example_db ''g1'' (Some alice) = Inr ()"
    by code_simp
  have before: "get_prompt example_db ''g1'' (Some alice)
     = Inr \<lparr>p_content = Some ''c1'', p_display_name = Some ''n1'', p_tags = Some [''a'', ''b''],
            p_id = 1, p_guid = ''g1''\<rparr>"
    by code_simp
  have after: "get_prompt (remove_all_tags_from_prompt
        (execute_update example_db [(''display_name'', ''new'')] ''g1'') ''g1'' (Some alice))
        ''g1'' (Some alice)
     = Inr \<lparr>p_content = Some ''c1'', p_display_name = Some ''new'', p_tags = Some [],
            p_id = 1, p_guid = ''g1''\<rparr>"
    by code_simp
  have sv: "service_update_prompt spec_schema example_db ''g1''
          (PromptUpdate_init None (Some (Some ''new'')) None) (Some alice)
        = update_prompt spec_schema example_db ''g1''
          (PromptUpdate_init None (Some (Some ''new'')) None) (Some alice)"
    by code_simp
  show ?thesis
    using update_prompt_display_name_only [OF chk, of spec_schema "''new''", THEN conjunct1]
      chk before after
    by (simp add: sv)
qed

text \<open>
  C2. An update that passes no field at all should raise the validation error and leave
  the store alone. With the default \<open>tags = []\<close> the test
  \<open>not setting_a_field and prompt.tags is None\<close> fails for it: whatever the store, the
  guid and the user, \<open>update_prompt\<close> does not raise \<open>DataValidationError\<close>, and on the
  prompt of alice it succeeds and removes her prompt's tag links.
\<close>

theorem update_prompt_nothing_supplied:
  "snd (update_prompt sc db guid (PromptUpdate_init None None None) user)
     \<noteq> Inl DataValidationError
 \<and> update_prompt spec_schema example_db ''g1'' (PromptUpdate_init None None None) (Some alice)
      = (example_db\<lparr>prompt_tags := []\<rparr>, Inr ())
 \<and> service_update_prompt spec_schema example_db ''g1'' (PromptUpdate_init None None None)
      (Some alice)
      = (example_db\<lparr>prompt_tags := []\<rparr>, Inr ())"
proof -
  have "snd (update_prompt sc db guid (PromptUpdate_init None None None) user)
          \<noteq> Inl DataValidationError"
    using update_tags_outcome [of sc db guid "Some []" user]
    by (auto simp: update_prompt_def)
  moreover have "update_prompt spec_schema example_db ''g1''
      (PromptUpdate_init None None None) (Some alice)
      = (example_db\<lparr>prompt_tags := []\<rparr>, Inr ())"
    by code_simp
  moreover have "service_update_prompt spec_schema example_db ''g1''
      (PromptUpdate_init None None None) (Some alice)
      = (example_db\<lparr>prompt_tags := []\<rparr>, Inr ())"
    by code_simp
  ultimately show ?thesis by simp
qed

text \<open>
  C3. An update that passes scalars only should run no ownership check. The check sits in
  \<open>_update_tags\<close>, which \<open>update_prompt\<close> calls when \<open>prompt.tags is not None\<close>; an
  update that does not pass \<open>tags\<close> holds the default \<open>tags = []\<close>, so the check runs.
  For every such update, with or without scalars: when the first row with the guid has an
  author other than the caller's name, \<open>update_prompt\<close> raises \<open>UnauthorizedError\<close>,
  after it has executed the column update, and the service rolls back to the store it
  started from and raises the same error.
\<close>

theorem scalar_only_update_checks_ownership:
  assumes "filter (\<lambda>r. row_guid r = guid) (prompts db) = r # rest"
      and "row_author r \<noteq> map_option username user"
  shows "update_prompt sc db guid (PromptUpdate_init c d None) user =
           (execute_update db (set_fields (PromptUpdate_init c d None)) guid,
            Inl UnauthorizedError)
       \<and> service_update_prompt sc db guid (PromptUpdate_init c d None) user =
           (db, Inl UnauthorizedError)"
proof -
  have chk: "check_prompt_ownership db guid user = Inl UnauthorizedError"
    using assms by (auto simp: check_unauthorized_iff)
  have tg: "pu_tags (PromptUpdate_init c d None) \<noteq> None"
    by simp
  have rv: "pu_tags (PromptUpdate_revalidate (PromptUpdate_init c d None)) \<noteq> None"
    by simp
  show ?thesis
    using update_prompt_unauthorized [OF chk tg, of sc]
      update_prompt_unauthorized [OF chk rv, of sc]
    by (simp add: service_update_prompt_def transactional_def reraise_def)
qed

text \<open>
  On the example store: bob passes \<open>display_name\<close> only, for the prompt of alice. The
  input holds \<open>tags = []\<close>; the repository has renamed the prompt when it raises, and the
  service leaves the store as it was.
\<close>

theorem scalar_only_update_checks_ownership_witness:
  "PromptUpdate_init None (Some (Some ''new'')) None
     = \<lparr>pu_content = None, pu_display_name = Some ''new'', pu_tags = Some [],
        pu_fields_set = [''display_name'']\<rparr>
 \<and> snd (update_prompt spec_schema example_db ''g1''
          (PromptUpdate_init None (Some (Some ''new'')) None) (Some bob)) = Inl UnauthorizedError
 \<and> map row_display_name (prompts (fst (update_prompt spec_schema example_db ''g1''
          (PromptUpdate_init None (Some (Some ''new'')) None) (Some bob)))) = [''new'', ''n2'']
 \<and> service_update_prompt spec_schema example_db ''g1''
          (PromptUpdate_init None (Some (Some ''new'')) None) (Some bob)
     = (example_db, Inl UnauthorizedError)"
proof -
  let ?p = "PromptUpdate_init None (Some (Some ''new'')) None"
  have i: "?p = \<lparr>pu_content = None, pu_display_name = Some ''new'', pu_tags = Some [],
                 pu_fields_set = [''display_name'']\<rparr>"
    by (simp add: PromptUpdate_init_def)
  have g1: "filter (\<lambda>r. row_guid r = ''g1'') (prompts example_db) = [hd (prompts example_db)]"
    by (simp add: example_db_def)
  have a1: "row_author (hd (prompts example_db)) \<noteq> map_option username (Some bob)"
    by (simp add: example_db_def bob_def)
  have m: "map row_display_name
             (prompts (execute_update example_db (set_fields ?p) ''g1'')) = [''new'', ''n2'']"
    by (simp add: set_fields_init execute_update_def example_db_def)
  from scalar_only_update_checks_ownership [OF g1 a1, of spec_schema None "Some (Some ''new'')"]
  have "update_prompt spec_schema example_db ''g1'' ?p (Some bob) =
          (execute_update example_db (set_fields ?p) ''g1'', Inl UnauthorizedError)"
    and "service_update_prompt spec_schema example_db ''g1'' ?p (Some bob) =
          (example_db, Inl UnauthorizedError)"
    by simp_all
  with i m show ?thesis by simp
qed

text \<open>
  C5. \<open>delete(guid, ownerA)\<close> on a prompt whose stored author is another identity, an
  absent side included, raises \<open>UnauthorizedError\<close> before any mutation: the repository
  method leaves the whole store (the prompt row and its tag links with it) as it was, and
  so does the service method. The row the check reads is the first row with the guid.
\<close>

theorem delete_prompt_foreign_owner:
  assumes "filter (\<lambda>r. row_guid r = guid) (prompts db) = r # rest"
      and "row_author r \<noteq> map_option username user"
  shows "delete_prompt sc db guid user = (db, Inl UnauthorizedError)
       \<and> service_delete_prompt sc db guid user = (db, Inl UnauthorizedError)"
  using assms
  by (simp add: delete_prompt_def check_prompt_ownership_cases service_delete_prompt_def
        transactional_def reraise_def)

theorem delete_prompt_foreign_owner_witness:
  "delete_prompt spec_schema example_db ''g1'' (Some bob) = (example_db, Inl UnauthorizedError)
 \<and> service_delete_prompt spec_schema example_db ''g1'' (Some bob)
      = (example_db, Inl UnauthorizedError)
 \<and> delete_prompt spec_schema example_db ''g1'' None = (example_db, Inl UnauthorizedError)
 \<and> delete_prompt spec_schema example_db ''g2'' (Some alice) = (example_db, Inl UnauthorizedError)"
proof -
  have g1: "filter (\<lambda>r. row_guid r = ''g1'') (prompts example_db) = [hd (prompts example_db)]"
    by (simp add: example_db_def)
  have g2: "filter (\<lambda>r. row_guid r = ''g2'') (prompts example_db) = [last (prompts example_db)]"
    by (simp add: example_db_def)
  have a1: "row_author (hd (prompts example_db)) = Some ''alice''"
    by (simp add: example_db_def)
  have a2: "row_author (last (prompts example_db)) = None"
    by (simp add: example_db_def)
  show ?thesis
    using delete_prompt_foreign_owner [OF g1, of "Some bob" spec_schema]
          delete_prompt_foreign_owner [OF g1, of None spec_schema]
          delete_prompt_foreign_owner [OF g2, of "Some alice" spec_schema]
    by (simp add: a1 a2 bob_def alice_def)
qed

text \<open>
  C6. A delete that succeeds should leave no link to the deleted prompt. The method
  deletes the prompt row first and then calls \<open>remove_all_tags_from_prompt\<close>, whose
  statement finds the links through an inner join with the prompt row of this guid: the
  row is gone, so the statement deletes nothing. Without a foreign key that acts on the
  delete, \<open>delete_prompt\<close> leaves \<open>prompt_tags\<close> exactly as it was; when the ownership
  check passes it succeeds, and all it changes is the \<open>prompts\<close> table.
\<close>

theorem delete_prompt_leaves_links:
  assumes "on_delete sc = NoForeignKey"
  shows "prompt_tags (fst (delete_prompt sc db guid user)) = prompt_tags db
       \<and> (check_prompt_ownership db guid user = Inr () \<longrightarrow>
            delete_prompt sc db guid user =
              (db\<lparr>prompts := filter (\<lambda>r. row_guid r \<noteq> guid) (prompts db)\<rparr>, Inr ()))"
proof -
  let ?db1 = "db\<lparr>prompts := filter (\<lambda>r. row_guid r \<noteq> guid) (prompts db)\<rparr>"
  have "\<not> list_ex (\<lambda>r. row_id r = pid \<and> row_guid r = guid \<and> author_clause user r)
           (filter (\<lambda>r. row_guid r \<noteq> guid) (prompts db))" for pid
    by (auto simp: list_ex_iff)
  then have same: "remove_all_tags_from_prompt ?db1 guid user = ?db1"
    by (simp add: remove_all_tags_from_prompt_def)
  show ?thesis
    using assms same
    by (simp add: delete_prompt_def delete_from_prompts_def Let_def split: sum.splits)
qed

theorem delete_prompt_leaves_links_witness:
  "on_delete spec_schema = NoForeignKey
 \<and> snd (delete_prompt spec_schema example_db ''g1'' (Some alice)) = Inr ()
 \<and> map row_id (prompts (fst (delete_prompt spec_schema example_db ''g1'' (Some alice)))) = [2]
 \<and> prompt_tags (fst (delete_prompt spec_schema example_db ''g1'' (Some alice)))
     = [(1, 1), (1, 2)]"
proof -
  have s: "on_delete spec_schema = NoForeignKey" by (simp add: spec_schema_def)
  have a: "snd (delete_prompt spec_schema example_db ''g1'' (Some alice)) = Inr ()"
    by code_simp
  have b: "map row_id (prompts (fst (delete_prompt spec_schema example_db ''g1'' (Some alice))))
             = [2]"
    by code_simp
  have c: "prompt_tags example_db = [(1, 1), (1, 2)]" by (simp add: example_db_def)
  show ?thesis
    using delete_prompt_leaves_links [OF s, of example_db "''g1''" "Some alice", THEN conjunct1]
      s a b c
    by simp
qed

text \<open>
  C7. Adding a tag twice should leave it once in the prompt's tags, the second call being
  a no-op. The first statement of \<open>add_tag_to_prompt\<close> upserts the tag, but the link
  insert is a plain \<open>INSERT ... SELECT\<close>. For every prompt of the caller and every tag,
  after a first call that succeeded: under the uniqueness constraint on links the second
  call raises the driver's \<open>IntegrityError\<close>, which the service reports as the plain
  \<open>PromptException\<close>; without the constraint the second call inserts the same links once
  more.
\<close>

theorem add_tag_to_prompt_twice:
  assumes owned: "filter (\<lambda>r. row_guid r = guid \<and> author_clause user r) (prompts db) \<noteq> []"
      and first: "add_tag_to_prompt sc db guid tag user = (db1, Inr ())"
  shows "(link_unique sc \<longrightarrow>
            add_tag_to_prompt sc db1 guid tag user = (db1, Inl IntegrityError)
          \<and> service_add_tag_to_prompt sc db1 guid tag user = (db1, Inl PromptException))
       \<and> (\<not> link_unique sc \<longrightarrow>
            (\<exists>new. new \<noteq> [] \<and> set new \<subseteq> set (prompt_tags db1)
                 \<and> add_tag_to_prompt sc db1 guid tag user
                     = (db1\<lparr>prompt_tags := prompt_tags db1 @ new\<rparr>, Inr ())))"
proof -
  let ?d = "upsert_tag db tag"
  let ?new = "selected_links ?d guid tag user"
  from first have db1: "db1 = ?d\<lparr>prompt_tags := prompt_tags ?d @ ?new\<rparr>"
    by (auto simp: add_tag_to_prompt_def Let_def split: if_splits)
  have ne: "?new \<noteq> []"
    using owned upsert_tag_present [of tag db] by (simp add: selected_links_Nil_iff)
  have up: "upsert_tag db1 tag = db1"
    using upsert_tag_present [of tag db] by (simp add: db1 upsert_tag_def)
  have sel: "selected_links db1 guid tag user = ?new"
    by (simp add: db1 selected_links_def)
  have sub: "set ?new \<subseteq> set (prompt_tags db1)"
    by (simp add: db1)
  from ne obtain l where "l \<in> set ?new" by (cases ?new) auto
  with sub have ex: "list_ex (\<lambda>l. l \<in> set (prompt_tags db1)) ?new"
    by (auto simp: list_ex_iff)
  have u: "add_tag_to_prompt sc db1 guid tag user = (db1, Inl IntegrityError)" if "link_unique sc"
    using that ex by (simp add: add_tag_to_prompt_def up sel)
  then have s: "service_add_tag_to_prompt sc db1 guid tag user = (db1, Inl PromptException)"
    if "link_unique sc"
    using that by (simp add: service_add_tag_to_prompt_def transactional_def reraise_def)
  have n: "add_tag_to_prompt sc db1 guid tag user = (db1\<lparr>prompt_tags := prompt_tags db1 @ ?new\<rparr>, Inr ())"
    if "\<not> link_unique sc"
    using that by (simp add: add_tag_to_prompt_def up sel)
  from u s n ne sub show ?thesis by blast
qed

text \<open>
  On the public prompt of the example store and the tag \<open>x\<close>: an error under the
  constraint, and the tags \<open>x, x\<close> without it.
\<close>

theorem add_tag_to_prompt_twice_witness:
  "filter (\<lambda>r. row_guid r = ''g2'' \<and> author_clause None r) (prompts example_db) \<noteq> []
 \<and> snd (add_tag_to_prompt spec_schema example_db ''g2'' ''x'' None) = Inr ()
 \<and> snd (add_tag_to_prompt spec_schema
          (fst (add_tag_to_prompt spec_schema example_db ''g2'' ''x'' None)) ''g2'' ''x'' None)
     = Inl IntegrityError
 \<and> snd (service_add_tag_to_prompt spec_schema
          (fst (add_tag_to_prompt spec_schema example_db ''g2'' ''x'' None)) ''g2'' ''x'' None)
     = Inl PromptException
 \<and> get_prompt (fst (add_tag_to_prompt (spec_schema\<lparr>link_unique := False\<rparr>)
                       (fst (add_tag_to_prompt (spec_schema\<lparr>link_unique := False\<rparr>)
                               example_db ''g2'' ''x'' None))
                       ''g2'' ''x'' None)) ''g2'' None
     = Inr \<lparr>p_content = Some ''c2'', p_display_name = Some ''n2'', p_tags = Some [''x'', ''x''],
            p_id = 2, p_guid = ''g2''\<rparr>"
proof -
  let ?r = "add_tag_to_prompt spec_schema example_db ''g2'' ''x'' None"
  have owned: "filter (\<lambda>r. row_guid r = ''g2'' \<and> author_clause None r) (prompts example_db) \<noteq> []"
    by (simp add: example_db_def)
  have ok: "snd ?r = Inr ()" by code_simp
  then have first: "?r = (fst ?r, Inr ())" by (cases ?r) simp
  have u: "link_unique spec_schema" by (simp add: spec_schema_def)
  have dup: "get_prompt (fst (add_tag_to_prompt (spec_schema\<lparr>link_unique := False\<rparr>)
                       (fst (add_tag_to_prompt (spec_schema\<lparr>link_unique := False\<rparr>)
                               example_db ''g2'' ''x'' None))
                       ''g2'' ''x'' None)) ''g2'' None
     = Inr \<lparr>p_content = Some ''c2'', p_display_name = Some ''n2'', p_tags = Some [''x'', ''x''],
            p_id = 2, p_guid = ''g2''\<rparr>"
    by code_simp
  from add_tag_to_prompt_twice [OF owned first] u owned ok dup
  show ?thesis by simp
qed

text \<open>
  C8. An empty tag filter should be rejected with the validation error. In the service,
  \<open>tags.split(',')\<close> of the empty string is the list holding the empty string, never the
  empty list, so the test \<open>not tags_list\<close> never holds: the empty string queries the
  repository for the tag \<open>""\<close>, and no tags string makes the service raise
  \<open>DataValidationError\<close>. The repository itself does not test for the empty list.
\<close>

theorem service_list_prompts_by_tags_empty_filter:
  "service_list_prompts_by_tags db [] user = list_prompts_by_tags db [[]] user
 \<and> service_list_prompts_by_tags db [] user \<noteq> Inl DataValidationError
 \<and> service_list_prompts_by_tags db tgs user \<noteq> Inl DataValidationError
 \<and> list_prompts_by_tags db [] user \<noteq> Inl DataValidationError"
  by (simp add: service_list_prompts_by_tags_def list_prompts_by_tags_def read_only_def
      reraise_def)

text \<open>
  C10. When no prompt row has the guid, the ownership check subscripts the \<open>None\<close> that
  \<open>fetchone()\<close> returned: \<open>delete_prompt\<close>, and \<open>update_prompt\<close> with a tags value, raise
  \<open>TypeError\<close> in the repository, and the service turns it into the plain
  \<open>PromptException\<close> (neither \<open>RecordNotFoundError\<close> nor \<open>UnauthorizedError\<close>) and rolls
  the transaction back to the store it started from.
\<close>

theorem missing_row_unexpected_error:
  assumes "filter (\<lambda>r. row_guid r = guid) (prompts db) = []"
  shows "snd (delete_prompt sc db guid user) = Inl TypeError
       \<and> service_delete_prompt sc db guid user = (db, Inl PromptException)
       \<and> (pu_tags prompt \<noteq> None \<longrightarrow>
            snd (update_prompt sc db guid prompt user) = Inl TypeError
          \<and> service_update_prompt sc db guid prompt user = (db, Inl PromptException))"
proof -
  have del: "delete_prompt sc db guid user = (db, Inl TypeError)"
    by (simp add: delete_prompt_def check_missing [OF assms])
  have upd: "snd (update_prompt sc db guid q user) = Inl TypeError" if "pu_tags q \<noteq> None" for q
    using that by (auto simp: update_prompt_def update_tags_def Let_def check_missing [OF assms])
  have "service_update_prompt sc db guid prompt user = (db, Inl PromptException)"
    if "pu_tags prompt \<noteq> None"
  proof -
    have "snd (update_prompt sc db guid (PromptUpdate_revalidate prompt) user) = Inl TypeError"
      using upd [of "PromptUpdate_revalidate prompt"] that by simp
    then show ?thesis
      by (cases "update_prompt sc db guid (PromptUpdate_revalidate prompt) user")
         (simp add: service_update_prompt_def transactional_def reraise_def)
  qed
  with del upd show ?thesis
    by (simp add: service_delete_prompt_def transactional_def reraise_def)
qed

theorem missing_row_unexpected_error_witness:
  "filter (\<lambda>r. row_guid r = ''g9'') (prompts example_db) = []
 \<and> pu_tags (PromptUpdate_init None (Some (Some ''n'')) (Some (Some [''x'']))) \<noteq> None
 \<and> service_delete_prompt spec_schema example_db ''g9'' (Some alice)
      = (example_db, Inl PromptException)
 \<and> service_update_prompt spec_schema example_db ''g9''
      (PromptUpdate_init None (Some (Some ''n'')) (Some (Some [''x'']))) (Some alice)
      = (example_db, Inl PromptException)"
proof -
  have h: "filter (\<lambda>r. row_guid r = ''g9'') (prompts example_db) = []"
    by (simp add: example_db_def)
  have t: "pu_tags (PromptUpdate_init None (Some (Some ''n'')) (Some (Some [''x'']))) \<noteq> None"
    by (simp add: PromptUpdate_init_def)
  show ?thesis
    using missing_row_unexpected_error [OF h, of spec_schema "Some alice"
        "PromptUpdate_init None (Some (Some ''n'')) (Some (Some [''x'']))"] h t
    by simp
qed

text \<open>
  C4. Every read is scoped by the ownership predicate: the author equals the caller's
  name when there is a caller, and is absent when there is none.
  \<open>get_prompt\<close> and \<open>get_prompt_by_name\<close> raise \<open>RecordNotFoundError\<close> exactly when no
  row matches the key and the predicate (so a guid of another owner and a guid that does not
  exist give the same outcome), raise nothing else, and what they return comes from a row
  that matches both; the service passes the outcome on unchanged. \<open>list_prompts\<close> returns
  exactly the rows in scope, and \<open>list_prompts_by_tags\<close>, for a list of tags that is not
  empty, exactly the rows in scope that are linked to a tag of the list.
\<close>

theorem reads_scoped_by_owner:
  "(get_prompt db guid user = Inl RecordNotFoundError \<longleftrightarrow>
      \<not> (\<exists>r \<in> set (prompts db). row_guid r = guid \<and> row_author r = map_option username user))
 \<and> (\<forall>e. get_prompt db guid user = Inl e \<longrightarrow> e = RecordNotFoundError)
 \<and> (\<forall>p. get_prompt db guid user = Inr p \<longrightarrow>
      (\<exists>r \<in> set (prompts db). row_guid r = guid \<and> row_author r = map_option username user \<and>
         p_id p = row_id r \<and> p_guid p = guid \<and> p_content p = Some (row_content r) \<and>
         p_display_name p = Some (row_display_name r)))
 \<and> service_get_prompt db guid user = get_prompt db guid user
 \<and> (get_prompt_by_name db name user = Inl RecordNotFoundError \<longleftrightarrow>
      \<not> (\<exists>r \<in> set (prompts db). row_display_name r = name \<and>
            row_author r = map_option username user))
 \<and> (\<forall>e. get_prompt_by_name db name user = Inl e \<longrightarrow> e = RecordNotFoundError)
 \<and> (\<forall>p. get_prompt_by_name db name user = Inr p \<longrightarrow>
      (\<exists>r \<in> set (prompts db). row_display_name r = name \<and>
         row_author r = map_option username user \<and>
         p_id p = row_id r \<and> p_guid p = row_guid r \<and> p_content p = Some (row_content r) \<and>
         p_display_name p = Some name))
 \<and> (\<exists>ps. list_prompts db user = Inr ps \<and>
      map (\<lambda>p. (p_id p, p_guid p, p_content p, p_display_name p)) ps =
      map (\<lambda>r. (row_id r, row_guid r, Some (row_content r), Some (row_display_name r)))
          (filter (\<lambda>r. row_author r = map_option username user) (prompts db)))
 \<and> (tags_list \<noteq> [] \<longrightarrow>
      (\<exists>ps. list_prompts_by_tags db tags_list user = Inr ps \<and>
         map (\<lambda>p. (p_id p, p_guid p, p_content p, p_display_name p)) ps =
         map (\<lambda>r. (row_id r, row_guid r, Some (row_content r), Some (row_display_name r)))
             (filter (\<lambda>r. row_author r = map_option username user \<and>
                          (\<exists>(pid, tid) \<in> set (prompt_tags db). \<exists>(i, t) \<in> set (tags db).
                              pid = row_id r \<and> i = tid \<and> t \<in> set tags_list))
                     (prompts db))))"
proof -
  let ?own = "\<lambda>r. row_author r = map_option username user"
  have ac: "author_clause user = ?own"
    by (rule ext) (simp add: author_clause_iff)
  have g: "get_prompt db guid user =
      (case filter (\<lambda>r. row_guid r = guid \<and> ?own r) (prompts db) of [] \<Rightarrow> Inl RecordNotFoundError
       | r # _ \<Rightarrow> Inr (Prompt_init (make_result_dict (r, GROUP_CONCAT (group_concat_max_len db) (joined_tags db r)))))"
    unfolding get_prompt_def select_first ac ..
  have n: "get_prompt_by_name db name user =
      (case filter (\<lambda>r. row_display_name r = name \<and> ?own r) (prompts db) of [] \<Rightarrow> Inl RecordNotFoundError
       | r # _ \<Rightarrow> Inr (Prompt_init (make_result_dict (r, GROUP_CONCAT (group_concat_max_len db) (joined_tags db r)))))"
    unfolding get_prompt_by_name_def select_first ac ..
  note G = first_match_cases [of db "\<lambda>r. row_guid r = guid \<and> ?own r", folded g]
  note N = first_match_cases [of db "\<lambda>r. row_display_name r = name \<and> ?own r", folded n]
  have g1: "get_prompt db guid user = Inl RecordNotFoundError \<longleftrightarrow>
      \<not> (\<exists>r \<in> set (prompts db). row_guid r = guid \<and> ?own r)"
    using G(1) .
  have g2: "\<forall>e. get_prompt db guid user = Inl e \<longrightarrow> e = RecordNotFoundError"
    using G(2) by blast
  have g3: "\<forall>p. get_prompt db guid user = Inr p \<longrightarrow>
      (\<exists>r \<in> set (prompts db). row_guid r = guid \<and> ?own r \<and>
         p_id p = row_id r \<and> p_guid p = guid \<and> p_content p = Some (row_content r) \<and>
         p_display_name p = Some (row_display_name r))"
    using G(3) by fastforce
  have g4: "service_get_prompt db guid user = get_prompt db guid user"
    using g2 by (cases "get_prompt db guid user") (auto simp: service_get_prompt_def read_only_def reraise_def)
  have n1: "get_prompt_by_name db name user = Inl RecordNotFoundError \<longleftrightarrow>
      \<not> (\<exists>r \<in> set (prompts db). row_display_name r = name \<and> ?own r)"
    using N(1) .
  have n2: "\<forall>e. get_prompt_by_name db name user = Inl e \<longrightarrow> e = RecordNotFoundError"
    using N(2) by blast
  have n3: "\<forall>p. get_prompt_by_name db name user = Inr p \<longrightarrow>
      (\<exists>r \<in> set (prompts db). row_display_name r = name \<and> ?own r \<and>
         p_id p = row_id r \<and> p_guid p = row_guid r \<and> p_content p = Some (row_content r) \<and>
         p_display_name p = Some name)"
    using N(3) by fastforce
  have l: "\<exists>ps. list_prompts db user = Inr ps \<and>
      map (\<lambda>p. (p_id p, p_guid p, p_content p, p_display_name p)) ps =
      map (\<lambda>r. (row_id r, row_guid r, Some (row_content r), Some (row_display_name r)))
          (filter ?own (prompts db))"
    by (simp add: list_prompts_def select_grouped_def ac o_def)
  have t: "\<exists>ps. list_prompts_by_tags db tags_list user = Inr ps \<and>
         map (\<lambda>p. (p_id p, p_guid p, p_content p, p_display_name p)) ps =
         map (\<lambda>r. (row_id r, row_guid r, Some (row_content r), Some (row_display_name r)))
             (filter (\<lambda>r. ?own r \<and>
                          (\<exists>(pid, tid) \<in> set (prompt_tags db). \<exists>(i, t) \<in> set (tags db).
                              pid = row_id r \<and> i = tid \<and> t \<in> set tags_list))
                     (prompts db))"
    if "tags_list \<noteq> []"
  proof -
    let ?kept = "\<lambda>r. filter (\<lambda>v. case v of None \<Rightarrow> False | Some t \<Rightarrow> t \<in> set tags_list) (joined_tags db r)"
    have "list_prompts_by_tags db tags_list user =
        Inr (map (\<lambda>result. Prompt_init (make_result_dict result))
               (map (\<lambda>r. (r, GROUP_CONCAT (group_concat_max_len db) (?kept r)))
                  (filter (\<lambda>r. ?kept r \<noteq> [] \<and> ?own r) (prompts db))))"
      using that
      by (simp add: list_prompts_by_tags_def Let_def ac concat_map_if_singleton)
    moreover have "(\<lambda>r. ?kept r \<noteq> [] \<and> ?own r) =
        (\<lambda>r. ?own r \<and> (\<exists>(pid, tid) \<in> set (prompt_tags db). \<exists>(i, t) \<in> set (tags db).
                              pid = row_id r \<and> i = tid \<and> t \<in> set tags_list))"
      by (rule ext) (auto simp only: kept_nonempty_iff)
    ultimately show ?thesis
      by (simp add: o_def)
  qed
  from g1 g2 g3 g4 n1 n2 n3 l t show ?thesis by blast
qed

theorem reads_scoped_by_owner_witness:
  "get_prompt example_db ''g1'' (Some bob) = Inl RecordNotFoundError
 \<and> get_prompt example_db ''g9'' (Some bob) = Inl RecordNotFoundError
 \<and> get_prompt example_db ''g1'' None = Inl RecordNotFoundError
 \<and> (\<exists>ps. list_prompts example_db (Some alice) = Inr ps \<and> map p_id ps = [1])
 \<and> (\<exists>ps. list_prompts example_db None = Inr ps \<and> map p_id ps = [2])
 \<and> (\<exists>ps. list_prompts_by_tags example_db [''b'', ''z''] (Some alice) = Inr ps \<and>
          map p_id ps = [1])"
proof -
  note R = reads_scoped_by_owner [where db = example_db]
  have a: "\<not> (\<exists>r \<in> set (prompts example_db). row_guid r = g \<and>
               row_author r = map_option username u)"
    if "(g, u) \<in> {(''g1'', Some bob), (''g9'', Some bob), (''g1'', None)}" for g u
    using that by (auto simp: example_db_def bob_def)
  have g1: "get_prompt example_db ''g1'' (Some bob) = Inl RecordNotFoundError"
    using R [of "''g1''" "Some bob", THEN conjunct1] a [of "''g1''" "Some bob"] by simp
  have g2: "get_prompt example_db ''g9'' (Some bob) = Inl RecordNotFoundError"
    using R [of "''g9''" "Some bob", THEN conjunct1] a [of "''g9''" "Some bob"] by simp
  have g3: "get_prompt example_db ''g1'' None = Inl RecordNotFoundError"
    using R [of "''g1''" None, THEN conjunct1] a [of "''g1''" None] by simp
  have fst4: "map p_id ps = map fst (map (\<lambda>p. (p_id p, p_guid p, p_content p, p_display_name p)) ps)"
    for ps by simp
  have l1: "\<exists>ps. list_prompts example_db (Some alice) = Inr ps \<and> map p_id ps = [1]"
    using R [of "''g1''" "Some alice" "''n1''" "[''b'', ''z'']"]
    unfolding fst4 by (auto simp: example_db_def alice_def)
  have l2: "\<exists>ps. list_prompts example_db None = Inr ps \<and> map p_id ps = [2]"
    using R [of "''g1''" None "''n1''" "[''b'', ''z'']"]
    unfolding fst4 by (auto simp: example_db_def)
  have l3: "\<exists>ps. list_prompts_by_tags example_db [''b'', ''z''] (Some alice) = Inr ps \<and>
          map p_id ps = [1]"
    using R [of "''g1''" "Some alice" "''n1''" "[''b'', ''z'']"]
    unfolding fst4 by (auto simp: example_db_def alice_def)
  from g1 g2 g3 l1 l2 l3 show ?thesis by blast
qed

text \<open>
  C9, as the claim states it, fails: the tags of a prompt come back as the aggregated
  string split at commas, so a tag that contains a comma comes back as two tags, and a
  prompt whose only tag is the empty string comes back with no tag; and the server cuts
  the aggregate at \<open>group_concat_max_len\<close>, so a tag of 1025 bytes comes back as its
  first 1024 bytes.
\<close>

theorem create_get_comma_tag:
  "snd (create_prompt spec_schema example_db ''g3''
         \<lparr>pc_content = ''c'', pc_display_name = ''n'', pc_author = None,
          pc_tags = Some [''a,b'']\<rparr> (Some bob)) = Inr ''g3''
 \<and> get_prompt (fst (create_prompt spec_schema example_db ''g3''
         \<lparr>pc_content = ''c'', pc_display_name = ''n'', pc_author = None,
          pc_tags = Some [''a,b'']\<rparr> (Some bob))) ''g3'' (Some bob)
     = Inr \<lparr>p_content = Some ''c'', p_display_name = Some ''n'', p_tags = Some [''a'', ''b''],
            p_id = 3, p_guid = ''g3''\<rparr>
 \<and> set [''a'', ''b''] \<noteq> set [''a,b'']
 \<and> snd (create_prompt spec_schema example_db ''g3''
         \<lparr>pc_content = ''c'', pc_display_name = ''n'', pc_author = None,
          pc_tags = Some ['''']\<rparr> (Some bob)) = Inr ''g3''
 \<and> get_prompt (fst (create_prompt spec_schema example_db ''g3''
         \<lparr>pc_content = ''c'', pc_display_name = ''n'', pc_author = None,
          pc_tags = Some ['''']\<rparr> (Some bob))) ''g3'' (Some bob)
     = Inr \<lparr>p_content = Some ''c'', p_display_name = Some ''n'', p_tags = Some [],
            p_id = 3, p_guid = ''g3''\<rparr>
 \<and> snd (create_prompt spec_schema example_db ''g3''
         \<lparr>pc_content = ''c'', pc_display_name = ''n'', pc_author = None,
          pc_tags = Some [replicate 1025 (CHR ''a'')]\<rparr> (Some bob)) = Inr ''g3''
 \<and> map_sum id p_tags (get_prompt (fst (create_prompt spec_schema example_db ''g3''
         \<lparr>pc_content = ''c'', pc_display_name = ''n'', pc_author = None,
          pc_tags = Some [replicate 1025 (CHR ''a'')]\<rparr> (Some bob))) ''g3'' (Some bob))
     = Inr (Some [replicate 1024 (CHR ''a'')])
 \<and> set [replicate 1024 (CHR ''a'')] \<noteq> set [replicate 1025 (CHR ''a'')]"
proof -
  let ?pc = "\<lambda>ts. \<lparr>pc_content = ''c'', pc_display_name = ''n'', pc_author = None,
                    pc_tags = Some ts\<rparr>"
  have short: "snd (create_prompt spec_schema example_db ''g3'' (?pc [''a,b'']) (Some bob))
      = Inr ''g3''
    \<and> get_prompt (fst (create_prompt spec_schema example_db ''g3'' (?pc [''a,b''])
         (Some bob))) ''g3'' (Some bob)
      = Inr \<lparr>p_content = Some ''c'', p_display_name = Some ''n'', p_tags = Some [''a'', ''b''],
             p_id = 3, p_guid = ''g3''\<rparr>
    \<and> set [''a'', ''b''] \<noteq> set [''a,b'']
    \<and> snd (create_prompt spec_schema example_db ''g3'' (?pc ['''']) (Some bob)) = Inr ''g3''
    \<and> get_prompt (fst (create_prompt spec_schema example_db ''g3'' (?pc [''''])
         (Some bob))) ''g3'' (Some bob)
      = Inr \<lparr>p_content = Some ''c'', p_display_name = Some ''n'', p_tags = Some [],
             p_id = 3, p_guid = ''g3''\<rparr>"
    by code_simp
  define t where "t = replicate 1025 (CHR ''a'')"
  define t' where "t' = replicate 1024 (CHR ''a'')"
  have cut: "take 1024 t = t'"
    unfolding t_def t'_def take_replicate by simp
  have plain: "CHR '','' \<notin> set t'" and ne: "t' \<noteq> []" and diff: "t' \<noteq> t"
    unfolding t_def t'_def by (simp_all add: replicate_eq_replicate)
  have wf: "wf_db example_db"
    by (simp add: wf_db_def tags_table_ok_def example_db_def)
  have fresh: "''g3'' \<notin> row_guid ` set (prompts example_db)"
    by (simp add: example_db_def)
  have lim: "group_concat_max_len example_db = 1024"
    by (simp add: example_db_def)
  from create_then_get_tags [OF wf fresh, of "?pc [t]" "[t]" spec_schema "Some bob"]
  obtain db' p where cr: "create_prompt spec_schema example_db ''g3'' (?pc [t]) (Some bob)
        = (db', Inr ''g3'')"
    and gt: "get_prompt db' ''g3'' (Some bob) = Inr p"
    and tg: "p_tags p = Some ((case GROUP_CONCAT (group_concat_max_len example_db) (map Some [t]) of None \<Rightarrow> [] | Some s \<Rightarrow> if s = [] then [] else split_comma s))"
    by auto
  have "(case GROUP_CONCAT (group_concat_max_len example_db) (map Some [t]) of None \<Rightarrow> [] | Some s \<Rightarrow> if s = [] then [] else split_comma s) = [t']"
    using ne by (simp add: lim GROUP_CONCAT_def cut split_comma_plain [OF plain])
  with cr gt tg have long:
    "snd (create_prompt spec_schema example_db ''g3'' (?pc [t]) (Some bob)) = Inr ''g3''"
    "map_sum id p_tags (get_prompt (fst (create_prompt spec_schema example_db ''g3'' (?pc [t])
         (Some bob))) ''g3'' (Some bob)) = Inr (Some [t'])"
    by simp_all
  from short long diff show ?thesis
    unfolding t_def t'_def by simp
qed

text \<open>
  C9, amended. On a well-formed store, with a guid that no prompt row has yet, a create
  input whose tags are a list (not \<open>None\<close>) of strings without a comma, other than the
  list holding just the empty string, without duplicates when the links are unique, and
  short enough that the tags joined by commas fit the server's \<open>group_concat_max_len\<close>:
  \<open>create_prompt\<close> succeeds and returns the guid, in the repository and through the
  service, and \<open>get_prompt\<close> of that guid for the same owner returns a prompt with the
  content, the display name and the tag set of the input.
\<close>

theorem create_then_get:
  assumes wf: "wf_db db"
      and fresh: "guid \<notin> row_guid ` set (prompts db)"
      and tgs: "pc_tags prompt = Some ts"
      and uniq: "link_unique sc \<longrightarrow> distinct ts"
      and comma: "\<forall>t \<in> set ts. CHR '','' \<notin> set t"
      and nonempty: "ts \<noteq> [[]]"
      and bound: "length (join_comma ts) \<le> group_concat_max_len db"
  shows "\<exists>db' p tl.
           create_prompt sc db guid prompt author = (db', Inr guid)
         \<and> service_create_prompt sc db guid prompt author = (db', Inr guid)
         \<and> get_prompt db' guid author = Inr p
         \<and> p_guid p = guid
         \<and> p_content p = Some (pc_content prompt)
         \<and> p_display_name p = Some (pc_display_name prompt)
         \<and> p_tags p = Some tl \<and> set tl = set ts"
proof -
  from create_then_get_tags [OF wf fresh tgs uniq, of author]
  obtain db' p where
    "create_prompt sc db guid prompt author = (db', Inr guid)"
    "service_create_prompt sc db guid prompt author = (db', Inr guid)"
    "get_prompt db' guid author = Inr p"
    "p_guid p = guid" "p_content p = Some (pc_content prompt)"
    "p_display_name p = Some (pc_display_name prompt)"
    and "p_tags p = Some (case GROUP_CONCAT (group_concat_max_len db) (map Some ts) of
                              None \<Rightarrow> []
                            | Some s \<Rightarrow> if s = [] then [] else split_comma s)"
    by blast
  moreover from this(7) have "p_tags p = Some ts"
    unfolding tags_round_trip [OF comma nonempty bound] .
  ultimately show ?thesis by blast
qed

theorem create_then_get_witness:
  "wf_db example_db
 \<and> ''g3'' \<notin> row_guid ` set (prompts example_db)
 \<and> length (join_comma [''x'', ''a'', '''']) \<le> group_concat_max_len example_db
 \<and> (\<exists>db' p tl.
       create_prompt spec_schema example_db ''g3''
         \<lparr>pc_content = ''c'', pc_display_name = ''n'', pc_author = None,
          pc_tags = Some [''x'', ''a'', '''']\<rparr> (Some bob) = (db', Inr ''g3'')
     \<and> get_prompt db' ''g3'' (Some bob) = Inr p
     \<and> p_content p = Some ''c'' \<and> p_display_name p = Some ''n''
     \<and> p_tags p = Some tl \<and> set tl = {''x'', ''a'', ''''})"
proof -
  let ?pc = "\<lparr>pc_content = ''c'', pc_display_name = ''n'', pc_author = None,
              pc_tags = Some [''x'', ''a'', '''']\<rparr>"
  have wf: "wf_db example_db"
    by (simp add: wf_db_def tags_table_ok_def example_db_def)
  have fresh: "''g3'' \<notin> row_guid ` set (prompts example_db)"
    by (simp add: example_db_def)
  have tgs: "pc_tags ?pc = Some [''x'', ''a'', '''']" by simp
  have uniq: "link_unique spec_schema \<longrightarrow> distinct [''x'', ''a'', '''']" by simp
  have comma: "\<forall>t \<in> set [''x'', ''a'', '''']. CHR '','' \<notin> set t" by simp
  have nonempty: "[''x'', ''a'', ''''] \<noteq> [[]]" by simp
  have bound: "length (join_comma [''x'', ''a'', '''']) \<le> group_concat_max_len example_db"
    by (simp add: example_db_def)
  from create_then_get [OF wf fresh tgs uniq comma nonempty bound, of "Some bob"] wf fresh bound
  show ?thesis by auto
qed

end
